theory Spec2Isabelle
  imports Main
begin

section \<open>Text streams and the line source\<close>

text \<open>
  The module \<^verbatim>\<open>ubelt/util_cmd.py\<close> reads the standard output and standard error of a
  child process through two text streams (\<^verbatim>\<open>universal_newlines=True\<close>).  A stream is
  modelled by the text that is still to be read from it: the characters the child writes
  to the pipe before the pipe is closed, after decoding and newline translation.
  \<^verbatim>\<open>stream.readline()\<close> blocks until it has a whole line or the end of the stream, so
  its result depends on that text only: it returns the text up to and including the first
  newline, the whole rest when no newline is left, and the empty string at the end of the
  stream.  The function returns the line together with the stream after the read.
\<close>

definition newline :: char where
  "newline = CHR 0x0A"

fun readline :: "string \<Rightarrow> string \<times> string" where
  "readline [] = ([], [])"
| "readline (c # cs) =
     (if c = newline then ([c], cs)
      else (case readline cs of (line, rest) \<Rightarrow> (c # line, rest)))"

lemma readline_append: "fst (readline s) @ snd (readline s) = s"
  by (induction s) (auto split: prod.splits)

lemma readline_empty_iff: "fst (readline s) = [] \<longleftrightarrow> s = []"
  by (cases s) (auto split: prod.splits)

lemma readline_rest_le: "length (snd (readline s)) \<le> length s"
  by (induction s) (auto split: prod.splits)

lemma readline_shorter: "s \<noteq> [] \<Longrightarrow> length (snd (readline s)) < length s"
  using readline_rest_le [of "tl s"] by (cases s) (auto split: prod.splits)

text \<open>
  \<^verbatim>\<open>
  def _textio_iterlines(stream):
      line = stream.readline()
      while line != '':
          yield line
          line = stream.readline()
  \<close>
  The generator is modelled by the list of the lines it yields when it is run to its end,
  together with the stream it leaves behind.  The loop variable \<^verbatim>\<open>line\<close> is the first
  argument of \<open>iterlines_loop\<close>.
\<close>

function iterlines_loop :: "string \<Rightarrow> string \<Rightarrow> string list \<times> string" where
  "iterlines_loop line stream =
     (if line \<noteq> []
      then (case iterlines_loop (fst (readline stream)) (snd (readline stream)) of
              (lines, stream') \<Rightarrow> (line # lines, stream'))
      else ([], stream))"
  by pat_completeness auto
termination
proof (relation "measure (\<lambda>p. length (snd p) + (if fst p = [] then 0 else 1))")
  show "wf (measure (\<lambda>p::string \<times> string. length (snd p) + (if fst p = [] then 0 else 1)))"
    by simp
next
  fix line stream :: string
  assume "line \<noteq> []"
  then show "((fst (readline stream), snd (readline stream)), (line, stream))
      \<in> measure (\<lambda>p. length (snd p) + (if fst p = [] then 0 else 1))"
    using readline_shorter [of stream] readline_empty_iff [of stream]
    by (cases "stream = []") auto
qed

declare iterlines_loop.simps [simp del]

definition textio_iterlines :: "string \<Rightarrow> string list \<times> string" where
  "textio_iterlines stream =
     iterlines_loop (fst (readline stream)) (snd (readline stream))"

section \<open>Processes and scheduling\<close>

text \<open>
  A process handle, as far as the module uses it: the two text streams and the exit code
  that \<^verbatim>\<open>proc.wait()\<close> returns.  \<^verbatim>\<open>proc.communicate()\<close> reads both streams to their
  end and returns the two texts.  The processes of the model are the children that exit:
  \<^verbatim>\<open>proc.wait()\<close> and \<^verbatim>\<open>proc.communicate()\<close> return, and \<^verbatim>\<open>proc.poll()\<close> gives the
  exit code after it has given \<^verbatim>\<open>None\<close> a finite number of times.  A child that runs
  forever keeps every loop on \<^verbatim>\<open>proc.poll()\<close> running and \<^verbatim>\<open>cmd\<close> waiting; no
  statement below is about such a child.
\<close>

record proc =
  stdout :: string
  stderr :: string
  returncode :: int

definition communicate :: "proc \<Rightarrow> (string \<times> string) \<times> proc" where
  "communicate p = ((stdout p, stderr p), p\<lparr>stdout := [], stderr := []\<rparr>)"

definition wait :: "proc \<Rightarrow> int" where
  "wait p = returncode p"

text \<open>
  What the module cannot decide itself is timing.  It is given to the model as data:
  \<^item> \<open>polls_out\<close> and \<open>polls_err\<close>: how often the worker thread of a stream finds
    \<^verbatim>\<open>proc.poll() is None\<close> before it sees the exit code;
  \<^item> \<open>arrivals\<close>: for each iteration of the merge loop of the thread-based multiplexer,
    whether the stdout worker and the stderr worker have put their next item into their
    queue by the time \<^verbatim>\<open>get_nowait\<close> is called.  The loop is a busy wait, and the
    model runs it for as many iterations as this list is long;
  \<^item> \<open>wakeups\<close>: for each iteration of the first loop of the wait-based multiplexer
    (one per \<^verbatim>\<open>proc.poll() is None\<close>), whether \<^verbatim>\<open>select.select\<close> reports the stdout
    and the stderr descriptor as ready.
\<close>

record timing =
  polls_out :: nat
  polls_err :: nat
  arrivals :: "(bool \<times> bool) list"
  wakeups :: "(bool \<times> bool) list"

section \<open>The thread-based multiplexer\<close>

text \<open>
  \<^verbatim>\<open>
  def enqueue_output(proc, stream, stream_queue):
      while proc.poll() is None:
          line = stream.readline()
          stream_queue.put(line)
      for line in _textio_iterlines(stream):
          stream_queue.put(line)
      stream_queue.put(None)
  \<close>
  An item of a queue is a Python value that is a string or \<^verbatim>\<open>None\<close>: a
  \<open>string option\<close>.  The worker is modelled by the sequence of the items it puts, in the
  order of the calls of \<^verbatim>\<open>put\<close>, and the stream it leaves.  The queue is first-in
  first-out and holds one item, so a \<^verbatim>\<open>put\<close> may wait but the items come out in that
  order.
\<close>

fun enqueue_live :: "nat \<Rightarrow> string \<Rightarrow> string option list \<times> string" where
  "enqueue_live 0 stream = ([], stream)"
| "enqueue_live (Suc polls) stream =
     (case enqueue_live polls (snd (readline stream)) of
        (puts, stream') \<Rightarrow> (Some (fst (readline stream)) # puts, stream'))"

definition enqueue_output :: "nat \<Rightarrow> string \<Rightarrow> string option list \<times> string" where
  "enqueue_output polls stream =
     (case enqueue_live polls stream of
        (live_puts, stream1) \<Rightarrow>
          (case textio_iterlines stream1 of
             (lines, stream2) \<Rightarrow> (live_puts @ map Some lines @ [None], stream2)))"

text \<open>
  \<^verbatim>\<open>_proc_async_iter_stream\<close> creates the queue, starts the worker and returns the queue.
  The queue it returns is modelled by what the worker is going to put into it.
\<close>

definition proc_async_iter_stream :: "nat \<Rightarrow> string \<Rightarrow> string option list \<times> string" where
  "proc_async_iter_stream polls stream = enqueue_output polls stream"

text \<open>
  \<^verbatim>\<open>stream_queue.get_nowait()\<close> returns the oldest item, or raises \<^verbatim>\<open>queue.Empty\<close>
  when the worker has not put one yet (\<open>arrived\<close> is false) or will never put one again.
\<close>

datatype 'a popped = QueueEmpty | Got 'a

definition get_nowait :: "bool \<Rightarrow> 'a list \<Rightarrow> 'a popped \<times> 'a list" where
  "get_nowait arrived q =
     (if arrived then (case q of [] \<Rightarrow> (QueueEmpty, []) | x # q' \<Rightarrow> (Got x, q'))
      else (QueueEmpty, q))"

text \<open>
  \<^verbatim>\<open>
  stdout_live = True
  stderr_live = True
  while stdout_live or stderr_live:
      if stdout_live:
          try:
              oline = stdout_queue.get_nowait()
              stdout_live = oline is not None
          except queue.Empty:
              oline = None
      if stderr_live:
          try:
              eline = stderr_queue.get_nowait()
              stderr_live = eline is not None
          except queue.Empty:
              eline = None
      if oline is not None or eline is not None:
          yield oline, eline
  \<close>
  The variables \<^verbatim>\<open>oline\<close> and \<^verbatim>\<open>eline\<close> keep their value from one iteration to the
  next, so they are part of the state of the loop.  Both are assigned in the first
  iteration before they are read; the initial state gives them \<open>None\<close>.
\<close>

type_synonym merge_record = "string option \<times> string option"

record merge_state =
  stdout_live :: bool
  stderr_live :: bool
  oline :: "string option"
  eline :: "string option"
  stdout_queue :: "string option list"
  stderr_queue :: "string option list"

definition poll_stdout :: "bool \<Rightarrow> merge_state \<Rightarrow> merge_state" where
  "poll_stdout arrived st =
     (if stdout_live st then
        (case get_nowait arrived (stdout_queue st) of
           (Got x, q) \<Rightarrow> st\<lparr>oline := x, stdout_live := (x \<noteq> None), stdout_queue := q\<rparr>
         | (QueueEmpty, q) \<Rightarrow> st\<lparr>oline := None, stdout_queue := q\<rparr>)
      else st)"

definition poll_stderr :: "bool \<Rightarrow> merge_state \<Rightarrow> merge_state" where
  "poll_stderr arrived st =
     (if stderr_live st then
        (case get_nowait arrived (stderr_queue st) of
           (Got x, q) \<Rightarrow> st\<lparr>eline := x, stderr_live := (x \<noteq> None), stderr_queue := q\<rparr>
         | (QueueEmpty, q) \<Rightarrow> st\<lparr>eline := None, stderr_queue := q\<rparr>)
      else st)"

definition merge_polls :: "bool \<times> bool \<Rightarrow> merge_state \<Rightarrow> merge_state" where
  "merge_polls arrived st = poll_stderr (snd arrived) (poll_stdout (fst arrived) st)"

definition merge_yield :: "merge_state \<Rightarrow> merge_record list" where
  "merge_yield st =
     (if oline st \<noteq> None \<or> eline st \<noteq> None then [(oline st, eline st)] else [])"

fun merge_loop :: "(bool \<times> bool) list \<Rightarrow> merge_state \<Rightarrow> merge_record list \<times> merge_state" where
  "merge_loop [] st = ([], st)"
| "merge_loop (arrived # sched) st =
     (if stdout_live st \<or> stderr_live st then
        (case merge_loop sched (merge_polls arrived st) of
           (records, final) \<Rightarrow> (merge_yield (merge_polls arrived st) @ records, final))
      else ([], st))"

definition merge_init :: "string option list \<Rightarrow> string option list \<Rightarrow> merge_state" where
  "merge_init out_queue err_queue =
     \<lparr>stdout_live = True, stderr_live = True, oline = None, eline = None,
      stdout_queue = out_queue, stderr_queue = err_queue\<rparr>"

text \<open>
  The generator \<^verbatim>\<open>_proc_iteroutput_thread(proc)\<close>: the records it yields, the process
  with the streams as the workers leave them, and whether the loop has come to its end
  within the iterations that \<open>arrivals\<close> gives it.
\<close>

definition proc_iteroutput_thread :: "timing \<Rightarrow> proc \<Rightarrow> merge_record list \<times> proc \<times> bool" where
  "proc_iteroutput_thread tm p =
     (case proc_async_iter_stream (polls_out tm) (stdout p) of
        (out_queue, out_rest) \<Rightarrow>
     (case proc_async_iter_stream (polls_err tm) (stderr p) of
        (err_queue, err_rest) \<Rightarrow>
     (case merge_loop (arrivals tm) (merge_init out_queue err_queue) of
        (records, final) \<Rightarrow>
          (records, p\<lparr>stdout := out_rest, stderr := err_rest\<rparr>,
           \<not> (stdout_live final \<or> stderr_live final)))))"

section \<open>The wait-based multiplexer\<close>

text \<open>
  \<^verbatim>\<open>
  while proc.poll() is None:
      reads = [proc.stdout.fileno(), proc.stderr.fileno()]
      ret = select.select(reads, [], [])
      oline = eline = None
      for fd in ret[0]:
          if fd == proc.stdout.fileno():
              oline = proc.stdout.readline()
          if fd == proc.stderr.fileno():
              eline = proc.stderr.readline()
      yield oline, eline
  oline_iter = _textio_iterlines(proc.stdout)
  eline_iter = _textio_iterlines(proc.stderr)
  for oline, eline in zip_longest(oline_iter, eline_iter):
      yield oline, eline
  \<close>
  \<^verbatim>\<open>ret[0]\<close> is a sublist of \<^verbatim>\<open>reads\<close>: each of the two descriptors is in it at most
  once, which the pair of booleans of a wakeup says.  \<^verbatim>\<open>zip_longest\<close> of the standard
  library pairs the items of two iterators and fills the side that has ended with
  \<^verbatim>\<open>None\<close>.
\<close>

fun select_loop :: "(bool \<times> bool) list \<Rightarrow> proc \<Rightarrow> merge_record list \<times> proc" where
  "select_loop [] p = ([], p)"
| "select_loop (ret # rets) p =
     (let (oline, p1) =
            (if fst ret
             then (Some (fst (readline (stdout p))), p\<lparr>stdout := snd (readline (stdout p))\<rparr>)
             else (None, p));
          (eline, p2) =
            (if snd ret
             then (Some (fst (readline (stderr p1))), p1\<lparr>stderr := snd (readline (stderr p1))\<rparr>)
             else (None, p1))
      in (case select_loop rets p2 of
            (records, p3) \<Rightarrow> ((oline, eline) # records, p3)))"

fun zip_longest :: "'a list \<Rightarrow> 'b list \<Rightarrow> ('a option \<times> 'b option) list" where
  "zip_longest [] [] = []"
| "zip_longest (x # xs) [] = (Some x, None) # zip_longest xs []"
| "zip_longest [] (y # ys) = (None, Some y) # zip_longest [] ys"
| "zip_longest (x # xs) (y # ys) = (Some x, Some y) # zip_longest xs ys"

definition select_drain :: "proc \<Rightarrow> merge_record list \<times> proc" where
  "select_drain p =
     (case textio_iterlines (stdout p) of
        (olines, out_rest) \<Rightarrow>
     (case textio_iterlines (stderr p) of
        (elines, err_rest) \<Rightarrow>
          (zip_longest olines elines, p\<lparr>stdout := out_rest, stderr := err_rest\<rparr>)))"

definition proc_iteroutput_select :: "timing \<Rightarrow> proc \<Rightarrow> merge_record list \<times> proc \<times> bool" where
  "proc_iteroutput_select tm p =
     (case select_loop (wakeups tm) p of
        (live_records, p1) \<Rightarrow>
     (case select_drain p1 of
        (drain_records, p2) \<Rightarrow> (live_records @ drain_records, p2, True)))"

section \<open>The tee controller\<close>

text \<open>
  A forward sink is a writable text stream: \<^verbatim>\<open>write\<close> (\<open>sink_write\<close>) appends to its
  buffer and \<^verbatim>\<open>flush\<close> (\<open>sink_flush\<close>) hands the buffer on.  An argument
  \<^verbatim>\<open>stdout=None\<close> is a sink that was not supplied; \<^verbatim>\<open>if stdout:\<close> is true of a sink
  that was (a file object is true).
\<close>

record sink =
  pending :: "string list"
  flushed :: "string list"

definition sink_write :: "string \<Rightarrow> sink \<Rightarrow> sink" where
  "sink_write s w = w\<lparr>pending := pending w @ [s]\<rparr>"

definition sink_flush :: "sink \<Rightarrow> sink" where
  "sink_flush w = w\<lparr>pending := [], flushed := flushed w @ pending w\<rparr>"

datatype error =
    NotImplementedError string
  | ValueError string
  | TypeError string
  | OSError string

text \<open>
  \<^verbatim>\<open>
  for oline, eline in _proc_iteroutput(proc):
      if oline:
          if stdout:
              stdout.write(oline)
              stdout.flush()
          logged_out.append(oline)
      if eline:
          if stderr:
              stderr.write(eline)
              stderr.flush()
          logged_err.append(eline)
  \<close>
  \<^verbatim>\<open>if oline:\<close> is false of \<^verbatim>\<open>None\<close> and of the empty string.  The loop variables
  \<^verbatim>\<open>oline\<close> and \<^verbatim>\<open>eline\<close> are \<open>ol\<close> and \<open>el\<close> here.
\<close>

record tee_state =
  fwd_stdout :: "sink option"
  fwd_stderr :: "sink option"
  logged_out :: "string list"
  logged_err :: "string list"

definition forward :: "string \<Rightarrow> sink option \<Rightarrow> sink option" where
  "forward line fwd = (case fwd of None \<Rightarrow> None | Some w \<Rightarrow> Some (sink_flush (sink_write line w)))"

definition tee_out :: "string option \<Rightarrow> tee_state \<Rightarrow> tee_state" where
  "tee_out ol ts =
     (case ol of
        None \<Rightarrow> ts
      | Some line \<Rightarrow>
          if line \<noteq> []
          then ts\<lparr>fwd_stdout := forward line (fwd_stdout ts), logged_out := logged_out ts @ [line]\<rparr>
          else ts)"

definition tee_err :: "string option \<Rightarrow> tee_state \<Rightarrow> tee_state" where
  "tee_err el ts =
     (case el of
        None \<Rightarrow> ts
      | Some line \<Rightarrow>
          if line \<noteq> []
          then ts\<lparr>fwd_stderr := forward line (fwd_stderr ts), logged_err := logged_err ts @ [line]\<rparr>
          else ts)"

fun tee_loop :: "merge_record list \<Rightarrow> tee_state \<Rightarrow> tee_state" where
  "tee_loop [] ts = ts"
| "tee_loop ((ol, el) # records) ts = tee_loop records (tee_err el (tee_out ol ts))"

text \<open>
  \<^verbatim>\<open>
  def _tee_output(make_proc, stdout=None, stderr=None, backend='auto'):
      logged_out = []
      logged_err = []
      if backend == 'auto':
          backend = 'thread'
      if backend == 'select':
          if not POSIX:
              raise NotImplementedError('select is only available on posix')
          _proc_iteroutput = _proc_iteroutput_select
      elif backend == 'thread':
          _proc_iteroutput = _proc_iteroutput_thread
      else:
          raise ValueError('backend must be select, thread, or auto')
      proc = make_proc()
      for oline, eline in _proc_iteroutput(proc): ...
      return proc, logged_out, logged_err
  \<close>
  The factory \<^verbatim>\<open>make_proc\<close> takes no argument; it is modelled by what a call of it
  gives, a process or the exception of a failed launch.  The outcome of \<open>tee_output\<close>
  counts the calls of the factory and holds the two sinks as the function leaves them.
  Its field \<open>returned\<close> is \<open>None\<close> when the multiplexer is still looping at the end of
  the iterations that the timing gives it, \<open>Some (Inl e)\<close> when the function raises \<open>e\<close>
  and \<open>Some (Inr (proc, logged_out, logged_err))\<close> when it returns.
\<close>

definition tee_init :: "sink option \<Rightarrow> sink option \<Rightarrow> tee_state" where
  "tee_init stdout_fwd stderr_fwd =
     \<lparr>fwd_stdout = stdout_fwd, fwd_stderr = stderr_fwd, logged_out = [], logged_err = []\<rparr>"

record tee_outcome =
  returned :: "(error + proc \<times> string list \<times> string list) option"
  made_procs :: nat
  stdout_after :: "sink option"
  stderr_after :: "sink option"

definition tee_output ::
  "bool \<Rightarrow> timing \<Rightarrow> error + proc \<Rightarrow> sink option \<Rightarrow> sink option \<Rightarrow> string \<Rightarrow> tee_outcome"
where
  "tee_output POSIX tm make_proc stdout_fwd stderr_fwd backend0 =
     (let backend = (if backend0 = ''auto'' then ''thread'' else backend0);
          raise = (\<lambda>e. \<lparr>returned = Some (Inl e), made_procs = 0,
                        stdout_after = stdout_fwd, stderr_after = stderr_fwd\<rparr>)
      in
      case (if backend = ''select'' then
              (if \<not> POSIX then Inl (NotImplementedError ''select is only available on posix'')
               else Inr proc_iteroutput_select)
            else if backend = ''thread'' then Inr proc_iteroutput_thread
            else Inl (ValueError ''backend must be select, thread, or auto'')) of
        Inl e \<Rightarrow> raise e
      | Inr proc_iteroutput \<Rightarrow>
          (case make_proc of
             Inl e \<Rightarrow> (raise e)\<lparr>made_procs := 1\<rparr>
           | Inr p \<Rightarrow>
               (case proc_iteroutput tm p of
                  (records, p', exhausted) \<Rightarrow>
                    (let ts = tee_loop records (tee_init stdout_fwd stderr_fwd)
                     in \<lparr>returned =
                           (if exhausted then Some (Inr (p', logged_out ts, logged_err ts))
                            else None),
                         made_procs = 1,
                         stdout_after = fwd_stdout ts, stderr_after = fwd_stderr ts\<rparr>))))"

section \<open>The command executor\<close>

text \<open>
  The argument \<^verbatim>\<open>command\<close> of \<^verbatim>\<open>cmd\<close> is a string or a sequence of strings.  What
  \<^verbatim>\<open>cmd\<close> takes from outside the module is a parameter of the model: the platform
  flags, \<^verbatim>\<open>pipes.quote\<close>, \<^verbatim>\<open>shlex.split\<close> (which raises on a malformed string),
  \<^verbatim>\<open>subprocess.Popen\<close> (which raises when the launch fails), and the texts that the
  verbose modes print.  \<^verbatim>\<open>kwargs\<close> holds the keyword arguments that are not parameters of
  \<^verbatim>\<open>cmd\<close>; their values are used as truth values.
\<close>

datatype command = Text string | Tup "string list"

datatype pyval = PyStr string | PyInt int | PyProc proc

record platform =
  POSIX :: bool
  win32 :: bool
  pipes_quote :: "string \<Rightarrow> string"
  shlex_split :: "string \<Rightarrow> error + string list"
  Popen :: "command \<Rightarrow> bool \<Rightarrow> string option \<Rightarrow> (string \<times> string) list option \<Rightarrow> error + proc"
  getcwd :: string
  username :: string
  compname :: string
  compressuser :: "string \<Rightarrow> string"
  start_banner :: string
  end_banner :: string

record cmd_args =
  command :: command
  shell :: bool
  detach :: bool
  verbose :: int
  tee :: "bool option"
  cwd :: "string option"
  env :: "(string \<times> string) list option"
  tee_backend :: string
  kwargs :: "(string \<times> bool) list"

record cmd_outcome =
  result :: "(error + (string \<rightharpoonup> pyval)) option"
  sys_stdout :: sink
  sys_stderr :: sink

fun join :: "string \<Rightarrow> string list \<Rightarrow> string" where
  "join sep [] = []"
| "join sep [x] = x"
| "join sep (x # y # ys) = x @ sep @ join sep (y # ys)"

definition pop :: "string \<Rightarrow> (string \<times> 'v) list \<Rightarrow> (string \<times> 'v) list" where
  "pop key kw = filter (\<lambda>kv. fst kv \<noteq> key) kw"

definition print :: "string \<Rightarrow> sink \<Rightarrow> sink" where
  "print s w = sink_write [newline] (sink_write s w)"

text \<open>
  The normalisation of the command, lines 300 to 306 of the source:
  \<^verbatim>\<open>
  if isinstance(command, six.string_types):
      command_text = command
      command_tup = None
  else:
      command_tup = command
      command_text = ' '.join(list(map(pipes.quote, command_tup)))
  \<close>
\<close>

definition command_text :: "platform \<Rightarrow> command \<Rightarrow> string" where
  "command_text pf c =
     (case c of Text s \<Rightarrow> s | Tup t \<Rightarrow> join '' '' (map (pipes_quote pf) t))"

definition command_tup :: "command \<Rightarrow> string list option" where
  "command_tup c = (case c of Text s \<Rightarrow> None | Tup t \<Rightarrow> Some t)"

text \<open>
  The arguments given to \<^verbatim>\<open>Popen\<close>, lines 308 to 318: the text under a shell or on
  win32, and the tuple otherwise, split from the text when the command was a string.
\<close>

definition popen_args :: "platform \<Rightarrow> bool \<Rightarrow> command \<Rightarrow> error + command" where
  "popen_args pf sh c =
     (if sh \<or> win32 pf then Inr (Text (command_text pf c))
      else (case command_tup c of
              None \<Rightarrow> (case shlex_split pf (command_text pf c) of
                         Inl e \<Rightarrow> Inl e
                       | Inr t \<Rightarrow> Inr (Tup t))
            | Some t \<Rightarrow> Inr (Tup t)))"

text \<open>
  What the verbose modes print before the launch, lines 322 to 337, and the deprecated
  keyword arguments, lines 284 to 298.  \<^verbatim>\<open>list(kwargs.keys)\<close> in the message of the
  last \<^verbatim>\<open>raise\<close> is applied to the method itself and raises a \<^verbatim>\<open>TypeError\<close>.
\<close>

definition ps1 :: "platform \<Rightarrow> string option \<Rightarrow> string" where
  "ps1 pf cwd0 =
     ''[ubelt.cmd] '' @ username pf @ ''@'' @ compname pf @ '':'' @
       compressuser pf (case cwd0 of None \<Rightarrow> getcwd pf | Some d \<Rightarrow> d) @ ''$ ''"

definition print_start :: "platform \<Rightarrow> cmd_args \<Rightarrow> sink \<Rightarrow> sink" where
  "print_start pf a w =
     (if verbose a > 1
      then print (ps1 pf (cwd a) @ command_text pf (command a))
             (if verbose a > 2 then print (start_banner pf) w else w)
      else w)"

definition resolve_kwargs :: "cmd_args \<Rightarrow> error + bool option \<times> bool" where
  "resolve_kwargs a =
     (let kw0 = kwargs a;
          tee1 = (case map_of kw0 ''verbout'' of None \<Rightarrow> tee a | Some v \<Rightarrow> Some v);
          kw1 = pop ''verbout'' kw0;
          detach1 = (case map_of kw1 ''detatch'' of None \<Rightarrow> detach a | Some v \<Rightarrow> v);
          kw2 = pop ''detatch'' kw1
      in if kw2 \<noteq> [] then Inl (TypeError ''object is not iterable'')
         else Inr (tee1, detach1))"

text \<open>
  \<^verbatim>\<open>cmd\<close> itself.  Its outcome holds \<^verbatim>\<open>sys.stdout\<close> and \<^verbatim>\<open>sys.stderr\<close> as the call
  leaves them; \<open>result\<close> is \<open>None\<close> when the tee is still looping at the end of the
  iterations that the timing gives it, \<open>Some (Inl e)\<close> when \<^verbatim>\<open>cmd\<close> raises \<open>e\<close>, and
  \<open>Some (Inr info)\<close> when it returns the dictionary \<open>info\<close>.  The strings of the model
  are text, so \<^verbatim>\<open>''.join\<close> does not raise \<^verbatim>\<open>UnicodeDecodeError\<close>.
\<close>

definition cmd :: "platform \<Rightarrow> timing \<Rightarrow> sink \<Rightarrow> sink \<Rightarrow> cmd_args \<Rightarrow> cmd_outcome" where
  "cmd pf tm stdout0 stderr0 a =
     (case resolve_kwargs a of
        Inl e \<Rightarrow> \<lparr>result = Some (Inl e), sys_stdout = stdout0, sys_stderr = stderr0\<rparr>
      | Inr (tee1, detach1) \<Rightarrow>
     (case popen_args pf (shell a) (command a) of
        Inl e \<Rightarrow> \<lparr>result = Some (Inl e), sys_stdout = stdout0, sys_stderr = stderr0\<rparr>
      | Inr args \<Rightarrow>
     (let ctext = command_text pf (command a);
          tee2 = (case tee1 of None \<Rightarrow> verbose a > 0 | Some b \<Rightarrow> b);
          stdout1 = print_start pf a stdout0;
          make_proc = Popen pf args (shell a) (cwd a) (env a);
          finish = (\<lambda>w. if verbose a > 2 then print (end_banner pf) w else w)
      in
      if detach1 then
        (case make_proc of
           Inl e \<Rightarrow> \<lparr>result = Some (Inl e), sys_stdout = stdout1, sys_stderr = stderr0\<rparr>
         | Inr p \<Rightarrow>
             \<lparr>result = Some (Inr [''proc'' \<mapsto> PyProc p, ''command'' \<mapsto> PyStr ctext]),
              sys_stdout = (if verbose a > 0 then print ''...detaching'' stdout1 else stdout1),
              sys_stderr = stderr0\<rparr>)
      else if tee2 then
        (let r = tee_output (POSIX pf) tm make_proc (Some stdout1) (Some stderr0) (tee_backend a);
             stdout2 = (case stdout_after r of None \<Rightarrow> stdout1 | Some w \<Rightarrow> w);
             stderr2 = (case stderr_after r of None \<Rightarrow> stderr0 | Some w \<Rightarrow> w)
         in
         case returned r of
           None \<Rightarrow> \<lparr>result = None, sys_stdout = stdout2, sys_stderr = stderr2\<rparr>
         | Some (Inl e) \<Rightarrow> \<lparr>result = Some (Inl e), sys_stdout = stdout2, sys_stderr = stderr2\<rparr>
         | Some (Inr (p, lines_out, lines_err)) \<Rightarrow>
             (let out = join [] lines_out;
                  err = join [] lines_err;
                  p' = snd (communicate p);
                  ret = wait p'
              in \<lparr>result = Some (Inr [''out'' \<mapsto> PyStr out, ''err'' \<mapsto> PyStr err, ''ret'' \<mapsto> PyInt ret,
                                       ''proc'' \<mapsto> PyProc p', ''command'' \<mapsto> PyStr ctext]),
                  sys_stdout = finish stdout2, sys_stderr = stderr2\<rparr>))
      else
        (case make_proc of
           Inl e \<Rightarrow> \<lparr>result = Some (Inl e), sys_stdout = stdout1, sys_stderr = stderr0\<rparr>
         | Inr p \<Rightarrow>
             (let out = fst (fst (communicate p));
                  err = snd (fst (communicate p));
                  p' = snd (communicate p);
                  ret = wait p'
              in \<lparr>result = Some (Inr [''out'' \<mapsto> PyStr out, ''err'' \<mapsto> PyStr err, ''ret'' \<mapsto> PyInt ret,
                                       ''proc'' \<mapsto> PyProc p', ''command'' \<mapsto> PyStr ctext]),
                  sys_stdout = finish stdout1, sys_stderr = stderr0\<rparr>)))))"

section \<open>Notions used in the statements\<close>

text \<open>
  The results of the first \<open>n\<close> calls of \<^verbatim>\<open>readline\<close> on a stream, and the stream after
  them.
\<close>

fun read_lines :: "nat \<Rightarrow> string \<Rightarrow> string list" where
  "read_lines 0 stream = []"
| "read_lines (Suc n) stream = fst (readline stream) # read_lines n (snd (readline stream))"

fun skip_lines :: "nat \<Rightarrow> string \<Rightarrow> string" where
  "skip_lines 0 stream = stream"
| "skip_lines (Suc n) stream = skip_lines n (snd (readline stream))"

text \<open>
  The values among a sequence of optional values, and the lines among them: a line is a
  string that is not empty (the empty string is what \<^verbatim>\<open>readline\<close> returns at the end of
  a stream).
\<close>

fun somes :: "'a option list \<Rightarrow> 'a list" where
  "somes [] = []"
| "somes (None # xs) = somes xs"
| "somes (Some x # xs) = x # somes xs"

definition lines_of :: "string option list \<Rightarrow> string list" where
  "lines_of xs = filter (\<lambda>line. line \<noteq> []) (somes xs)"



text \<open>
  A queue is well formed when the sentinel is its last item and no other item is the
  sentinel.  A side of the merge loop is in order when, as long as it is live, its queue
  is well formed, and when, once it is complete, its queue is empty and its variable
  holds \<open>None\<close>.
\<close>

definition sentinel_last :: "'a option list \<Rightarrow> bool" where
  "sentinel_last q = (q \<noteq> [] \<and> last q = None \<and> None \<notin> set (butlast q))"

definition out_ok :: "merge_state \<Rightarrow> bool" where
  "out_ok st =
     (if stdout_live st then sentinel_last (stdout_queue st)
      else oline st = None \<and> stdout_queue st = [])"

definition err_ok :: "merge_state \<Rightarrow> bool" where
  "err_ok st =
     (if stderr_live st then sentinel_last (stderr_queue st)
      else eline st = None \<and> stderr_queue st = [])"

text \<open>
  The backends that \<^verbatim>\<open>_tee_output\<close> accepts on a platform, and the multiplexer it runs
  for an accepted backend.
\<close>

definition backend_ok :: "bool \<Rightarrow> string \<Rightarrow> bool" where
  "backend_ok posix backend =
     (backend = ''auto'' \<or> backend = ''thread'' \<or> (backend = ''select'' \<and> posix))"

definition multiplexer :: "string \<Rightarrow> timing \<Rightarrow> proc \<Rightarrow> merge_record list \<times> proc \<times> bool" where
  "multiplexer backend =
     (if backend = ''select'' then proc_iteroutput_select else proc_iteroutput_thread)"

text \<open>The text a sink has received, in the order of the writes.\<close>

definition sink_text :: "sink \<Rightarrow> string list" where
  "sink_text w = flushed w @ pending w"

text \<open>
  A process that writes \<^verbatim>\<open>"hello\n"\<close> to its stdout, nothing to its stderr, and exits
  with code 0, and a platform, a timing and a call of \<^verbatim>\<open>cmd\<close> at which the theorems
  below are instantiated.
\<close>

definition hello_proc :: proc where
  "hello_proc = \<lparr>stdout = ''hello\<newline>'', stderr = [], returncode = 0\<rparr>"

definition sample_platform :: platform where
  "sample_platform =
     \<lparr>POSIX = True, win32 = False,
      pipes_quote = (\<lambda>s. if CHR '' '' \<in> set s then [CHR 0x27] @ s @ [CHR 0x27] else s),
      shlex_split = (\<lambda>s. Inr [s]),
      Popen = (\<lambda>args sh dir vars. Inr hello_proc),
      getcwd = ''/tmp'', username = ''user'', compname = ''host'',
      compressuser = (\<lambda>s. s), start_banner = ''+=== START CMD ==='',
      end_banner = ''L___ END CMD ___''\<rparr>"

definition sample_timing :: timing where
  "sample_timing =
     \<lparr>polls_out = 1, polls_err = 1,
      arrivals = [(True, False), (True, True), (True, True), (False, True)],
      wakeups = [(True, False)]\<rparr>"

definition sample_call :: cmd_args where
  "sample_call =
     \<lparr>command = Tup [''echo'', ''hello world''], shell = False, detach = False, verbose = 1,
      tee = None, cwd = None, env = None, tee_backend = ''auto'', kwargs = []\<rparr>"

definition empty_sink :: sink where
  "empty_sink = \<lparr>pending = [], flushed = []\<rparr>"

section \<open>Properties of the line source\<close>

lemma iterlines_loop_Nil [simp]: "iterlines_loop [] stream = ([], stream)"
  by (simp add: iterlines_loop.simps)

lemma iterlines_loop_line:
  "line \<noteq> [] \<Longrightarrow>
   iterlines_loop line stream =
     (line # fst (iterlines_loop (fst (readline stream)) (snd (readline stream))),
      snd (iterlines_loop (fst (readline stream)) (snd (readline stream))))"
  by (subst iterlines_loop.simps) (simp add: case_prod_beta)

lemma iterlines_loop_text:
  "concat (fst (iterlines_loop line stream)) @ snd (iterlines_loop line stream) = line @ stream"
proof (induction line stream rule: iterlines_loop.induct)
  case (1 line stream)
  show ?case
  proof (cases "line = []")
    case True
    then show ?thesis by simp
  next
    case False
    with 1 readline_append [of stream] show ?thesis
      by (simp add: iterlines_loop_line)
  qed
qed

lemma iterlines_loop_rest:
  "(line = [] \<longrightarrow> stream = []) \<Longrightarrow> snd (iterlines_loop line stream) = []"
proof (induction line stream rule: iterlines_loop.induct)
  case (1 line stream)
  show ?case
  proof (cases "line = []")
    case True
    with 1 show ?thesis by simp
  next
    case False
    have "fst (readline stream) = [] \<longrightarrow> snd (readline stream) = []"
      by (simp add: readline_empty_iff)
    with 1 False show ?thesis
      by (simp add: iterlines_loop_line)
  qed
qed

lemma iterlines_loop_nonempty: "[] \<notin> set (fst (iterlines_loop line stream))"
proof (induction line stream rule: iterlines_loop.induct)
  case (1 line stream)
  then show ?case
    by (cases "line = []") (simp_all add: iterlines_loop_line)
qed

lemma textio_iterlines_rest: "snd (textio_iterlines stream) = []"
  unfolding textio_iterlines_def
  by (rule iterlines_loop_rest) (simp add: readline_empty_iff)

lemma textio_iterlines_concat: "concat (fst (textio_iterlines stream)) = stream"
  using iterlines_loop_text [of "fst (readline stream)" "snd (readline stream)"]
    textio_iterlines_rest [of stream]
  by (simp add: textio_iterlines_def readline_append)

lemma textio_iterlines_nonempty: "[] \<notin> set (fst (textio_iterlines stream))"
  by (simp add: textio_iterlines_def iterlines_loop_nonempty)

lemma textio_iterlines_Nil [simp]: "textio_iterlines [] = ([], [])"
  by (simp add: textio_iterlines_def)

lemma textio_iterlines_step:
  "stream \<noteq> [] \<Longrightarrow>
   textio_iterlines stream =
     (fst (readline stream) # fst (textio_iterlines (snd (readline stream))),
      snd (textio_iterlines (snd (readline stream))))"
  unfolding textio_iterlines_def
  by (simp add: iterlines_loop_line readline_empty_iff)

lemma readline_no_newline: "newline \<notin> set s \<Longrightarrow> readline s = (s, [])"
  by (induction s) auto

lemma readline_before_newline:
  "newline \<in> set t \<Longrightarrow> readline (t @ u) = (fst (readline t), snd (readline t) @ u)"
  by (induction t) (auto split: prod.splits)

lemma readline_has_newline: "newline \<in> set t \<Longrightarrow> newline \<in> set (fst (readline t))"
  by (induction t) (auto split: prod.splits)

lemma readline_rest_last: "snd (readline t) \<noteq> [] \<Longrightarrow> last (snd (readline t)) = last t"
  by (induction t) (auto split: prod.splits if_splits)

lemma read_lines_concat: "concat (read_lines n s) @ skip_lines n s = s"
proof (induction n arbitrary: s)
  case 0
  show ?case by simp
next
  case (Suc n)
  from Suc [of "snd (readline s)"] readline_append [of s] show ?case by simp
qed

lemma textio_iterlines_reads:
  "\<exists>n. fst (textio_iterlines s) = read_lines n s \<and> [] \<notin> set (read_lines n s)
       \<and> fst (readline (skip_lines n s)) = []"
proof (induction "length s" arbitrary: s rule: less_induct)
  case less
  show ?case
  proof (cases "s = []")
    case True
    then have "fst (textio_iterlines s) = read_lines 0 s \<and> [] \<notin> set (read_lines 0 s)
       \<and> fst (readline (skip_lines 0 s)) = []"
      by simp
    then show ?thesis by blast
  next
    case False
    then obtain n where n: "fst (textio_iterlines (snd (readline s))) = read_lines n (snd (readline s))"
      "[] \<notin> set (read_lines n (snd (readline s)))"
      "fst (readline (skip_lines n (snd (readline s)))) = []"
      using less [of "snd (readline s)"] readline_shorter [of s] by blast
    from False n have "fst (textio_iterlines s) = read_lines (Suc n) s \<and> [] \<notin> set (read_lines (Suc n) s)
       \<and> fst (readline (skip_lines (Suc n) s)) = []"
      using readline_empty_iff [of s] by (auto simp: textio_iterlines_step)
    then show ?thesis by blast
  qed
qed

lemma textio_iterlines_unterminated:
  "frag \<noteq> [] \<Longrightarrow> newline \<notin> set frag \<Longrightarrow> t = [] \<or> last t = newline \<Longrightarrow>
   fst (textio_iterlines (t @ frag)) = fst (textio_iterlines t) @ [frag]"
proof (induction "length t" arbitrary: t rule: less_induct)
  case less
  show ?case
  proof (cases "t = []")
    case True
    with less.prems show ?thesis
      by (simp add: textio_iterlines_step readline_no_newline)
  next
    case False
    with less.prems have nl: "newline \<in> set t"
      using last_in_set [of t] by auto
    let ?r = "snd (readline t)"
    have "?r = [] \<or> last ?r = newline"
      using readline_rest_last [of t] less.prems False by auto
    with less.hyps [of ?r] less.prems readline_shorter [OF False]
    have "fst (textio_iterlines (?r @ frag)) = fst (textio_iterlines ?r) @ [frag]"
      by blast
    with False nl show ?thesis
      by (simp add: textio_iterlines_step readline_before_newline)
  qed
qed

lemma textio_iterlines_terminated:
  "t = [] \<or> last t = newline \<Longrightarrow> \<forall>l \<in> set (fst (textio_iterlines t)). newline \<in> set l"
proof (induction "length t" arbitrary: t rule: less_induct)
  case less
  show ?case
  proof (cases "t = []")
    case True
    then show ?thesis by simp
  next
    case False
    with less.prems have nl: "newline \<in> set t"
      using last_in_set [of t] by auto
    let ?r = "snd (readline t)"
    have "?r = [] \<or> last ?r = newline"
      using readline_rest_last [of t] less.prems False by auto
    with less.hyps [of ?r] readline_shorter [OF False]
    have "\<forall>l \<in> set (fst (textio_iterlines ?r)). newline \<in> set l"
      by blast
    moreover have "newline \<in> set (fst (readline t))"
      using nl by (rule readline_has_newline)
    ultimately show ?thesis
      using False by (simp add: textio_iterlines_step)
  qed
qed

lemma textio_iterlines_blank_line:
  "fst (textio_iterlines (newline # s)) = [newline] # fst (textio_iterlines s)"
  by (simp add: textio_iterlines_step)

text \<open>
  Claim C4.  Run on any stream, \<^verbatim>\<open>_textio_iterlines\<close> yields the results of the
  successive calls of \<^verbatim>\<open>readline\<close> up to the first call that returns the empty string,
  the end-of-stream marker; none of the lines it yields is empty, their concatenation is
  the text of the stream, and the stream is at its end afterwards.  An empty line, which
  is the string of one newline, is yielded and does not end the iteration.  When the text
  ends in a fragment without a newline, that fragment is the last line yielded and occurs
  once among the lines.
\<close>

theorem textio_iterlines_until_eof:
  "(\<exists>n. fst (textio_iterlines stream) = read_lines n stream
        \<and> [] \<notin> set (read_lines n stream)
        \<and> fst (readline (skip_lines n stream)) = [])
   \<and> concat (fst (textio_iterlines stream)) = stream
   \<and> snd (textio_iterlines stream) = []
   \<and> fst (textio_iterlines (newline # stream)) = [newline] # fst (textio_iterlines stream)
   \<and> (frag \<noteq> [] \<and> newline \<notin> set frag \<and> (t = [] \<or> last t = newline) \<longrightarrow>
        fst (textio_iterlines (t @ frag)) = fst (textio_iterlines t) @ [frag]
        \<and> count_list (fst (textio_iterlines (t @ frag))) frag = 1)"
proof -
  have "count_list (fst (textio_iterlines (t @ frag))) frag = 1"
    if h: "frag \<noteq> []" "newline \<notin> set frag" "t = [] \<or> last t = newline"
  proof -
    have "frag \<notin> set (fst (textio_iterlines t))"
      using textio_iterlines_terminated [OF h(3)] h(2) by blast
    then show ?thesis
      by (simp add: textio_iterlines_unterminated [OF h] count_list_0_iff)
  qed
  then show ?thesis
    using textio_iterlines_reads [of stream] textio_iterlines_unterminated [of frag t]
    by (simp add: textio_iterlines_concat textio_iterlines_rest textio_iterlines_blank_line)
qed

theorem textio_iterlines_until_eof_witness:
  "(''b'' \<noteq> [] \<and> newline \<notin> set ''b'' \<and> (''a\<newline>\<newline>'' = [] \<or> last ''a\<newline>\<newline>'' = newline))
   \<and> fst (textio_iterlines (''a\<newline>\<newline>'' @ ''b'')) = fst (textio_iterlines ''a\<newline>\<newline>'') @ [''b'']
   \<and> count_list (fst (textio_iterlines (''a\<newline>\<newline>'' @ ''b''))) ''b'' = 1"
proof -
  have h: "''b'' \<noteq> [] \<and> newline \<notin> set ''b'' \<and> (''a\<newline>\<newline>'' = [] \<or> last ''a\<newline>\<newline>'' = newline)"
    by (simp add: newline_def)
  from h textio_iterlines_until_eof [of "''a\<newline>\<newline>b''" "''b''" "''a\<newline>\<newline>''"]
  show ?thesis by blast
qed

section \<open>Properties of the workers\<close>

lemma somes_append [simp]: "somes (xs @ ys) = somes xs @ somes ys"
  by (induction xs rule: somes.induct) simp_all

lemma somes_map_Some [simp]: "somes (map Some xs) = xs"
  by (induction xs) simp_all

lemma enqueue_live_reads:
  "enqueue_live polls stream = (map Some (read_lines polls stream), skip_lines polls stream)"
  by (induction polls arbitrary: stream) simp_all

lemma enqueue_output_puts:
  "fst (enqueue_output polls stream) =
     map Some (read_lines polls stream @ fst (textio_iterlines (skip_lines polls stream))) @ [None]"
  by (simp add: enqueue_output_def enqueue_live_reads case_prod_beta)

lemma enqueue_output_rest: "snd (enqueue_output polls stream) = []"
  by (simp add: enqueue_output_def enqueue_live_reads case_prod_beta textio_iterlines_rest)

lemma enqueue_output_text:
  "concat (somes (fst (enqueue_output polls stream))) = stream"
  using read_lines_concat [of polls stream]
  by (simp add: enqueue_output_puts textio_iterlines_concat)

lemma count_list_map_Some_None [simp]: "count_list (map Some xs) None = 0"
  by (induction xs) simp_all

lemma sentinel_last_Cons_Some [simp]: "sentinel_last (Some y # q) = sentinel_last q"
  by (cases q) (auto simp: sentinel_last_def)

lemma sentinel_last_Cons_None [simp]: "sentinel_last (None # q) = (q = [])"
  by (cases q) (auto simp: sentinel_last_def)

lemma sentinel_last_Nil [simp]: "\<not> sentinel_last []"
  by (simp add: sentinel_last_def)

lemma sentinel_last_snoc [simp]: "sentinel_last (map Some ls @ [None])"
  by (induction ls) simp_all

lemma enqueue_output_sentinel_last: "sentinel_last (fst (enqueue_output polls stream))"
  by (simp add: enqueue_output_puts del: map_append)

text \<open>
  Claim C5.  The items that the worker of a stream puts into its queue are lines, each one
  the result of a read of the stream, followed by the sentinel \<open>None\<close>: the sentinel is
  put once, it is the last item put, and by then the stream has been read to its end.
  While the process has not exited, in the first loop, the worker puts no sentinel.
\<close>

theorem enqueue_output_one_sentinel:
  "fst (enqueue_output polls stream) =
     map Some (read_lines polls stream @ fst (textio_iterlines (skip_lines polls stream))) @ [None]
   \<and> count_list (fst (enqueue_output polls stream)) None = 1
   \<and> last (fst (enqueue_output polls stream)) = None
   \<and> snd (enqueue_output polls stream) = []
   \<and> None \<notin> set (fst (enqueue_live polls stream))
   \<and> fst (proc_async_iter_stream polls stream) = fst (enqueue_output polls stream)"
  by (simp add: enqueue_output_puts enqueue_output_rest proc_async_iter_stream_def
      enqueue_live_reads del: map_append)

section \<open>Properties of the merge loop\<close>

lemma poll_stderr_out [simp]:
  "oline (poll_stderr b st) = oline st"
  "stdout_queue (poll_stderr b st) = stdout_queue st"
  "stdout_live (poll_stderr b st) = stdout_live st"
  by (simp_all add: poll_stderr_def split: prod.splits popped.splits)

lemma poll_stdout_err [simp]:
  "eline (poll_stdout b st) = eline st"
  "stderr_queue (poll_stdout b st) = stderr_queue st"
  "stderr_live (poll_stdout b st) = stderr_live st"
  by (simp_all add: poll_stdout_def split: prod.splits popped.splits)

lemma poll_stdout_ok:
  assumes "out_ok st"
  shows "out_ok (poll_stdout b st)"
    and "somes [oline (poll_stdout b st)] @ somes (stdout_queue (poll_stdout b st))
         = somes (stdout_queue st)"
    and "length (stdout_queue (poll_stdout b st)) = length (stdout_queue st) - (if b then 1 else 0)"
proof -
  show "out_ok (poll_stdout b st)"
    using assms
    by (cases "stdout_queue st"; cases "hd (stdout_queue st)")
       (auto simp: out_ok_def poll_stdout_def get_nowait_def split: if_splits)
  show "somes [oline (poll_stdout b st)] @ somes (stdout_queue (poll_stdout b st))
         = somes (stdout_queue st)"
    using assms
    by (cases "stdout_queue st"; cases "hd (stdout_queue st)")
       (auto simp: out_ok_def poll_stdout_def get_nowait_def split: if_splits)
  show "length (stdout_queue (poll_stdout b st)) = length (stdout_queue st) - (if b then 1 else 0)"
    using assms
    by (cases "stdout_live st") (auto simp: out_ok_def poll_stdout_def get_nowait_def split: list.splits)
qed

lemma poll_stderr_ok:
  assumes "err_ok st"
  shows "err_ok (poll_stderr b st)"
    and "somes [eline (poll_stderr b st)] @ somes (stderr_queue (poll_stderr b st))
         = somes (stderr_queue st)"
    and "length (stderr_queue (poll_stderr b st)) = length (stderr_queue st) - (if b then 1 else 0)"
proof -
  show "err_ok (poll_stderr b st)"
    using assms
    by (cases "stderr_queue st"; cases "hd (stderr_queue st)")
       (auto simp: err_ok_def poll_stderr_def get_nowait_def split: if_splits)
  show "somes [eline (poll_stderr b st)] @ somes (stderr_queue (poll_stderr b st))
         = somes (stderr_queue st)"
    using assms
    by (cases "stderr_queue st"; cases "hd (stderr_queue st)")
       (auto simp: err_ok_def poll_stderr_def get_nowait_def split: if_splits)
  show "length (stderr_queue (poll_stderr b st)) = length (stderr_queue st) - (if b then 1 else 0)"
    using assms
    by (cases "stderr_live st") (auto simp: err_ok_def poll_stderr_def get_nowait_def split: list.splits)
qed

lemma poll_stderr_out_ok [simp]: "out_ok (poll_stderr b st) = out_ok st"
  by (simp add: out_ok_def)

lemma poll_stdout_err_ok [simp]: "err_ok (poll_stdout b st) = err_ok st"
  by (simp add: err_ok_def)

lemma merge_yield_fst: "somes (map fst (merge_yield st)) = somes [oline st]"
  by (cases "oline st") (auto simp: merge_yield_def)

lemma merge_yield_snd: "somes (map snd (merge_yield st)) = somes [eline st]"
  by (cases "eline st") (auto simp: merge_yield_def)

lemma merge_loop_out:
  "out_ok st \<Longrightarrow>
   out_ok (snd (merge_loop sched st)) \<and>
   somes (map fst (fst (merge_loop sched st))) @ somes (stdout_queue (snd (merge_loop sched st)))
     = somes (stdout_queue st)"
proof (induction sched arbitrary: st)
  case Nil
  then show ?case by simp
next
  case (Cons av sched)
  let ?st = "merge_polls av st"
  have ok: "out_ok ?st"
    using Cons.prems by (simp add: merge_polls_def poll_stdout_ok(1))
  have step: "somes [oline ?st] @ somes (stdout_queue ?st) = somes (stdout_queue st)"
    using Cons.prems by (simp add: merge_polls_def poll_stdout_ok(2))
  show ?case
  proof (cases "stdout_live st \<or> stderr_live st")
    case True
    with Cons.IH [OF ok] step show ?thesis
      by (simp add: case_prod_beta merge_yield_fst del: somes.simps)
  next
    case False
    with Cons.prems show ?thesis by simp
  qed
qed

lemma merge_loop_err:
  "err_ok st \<Longrightarrow>
   err_ok (snd (merge_loop sched st)) \<and>
   somes (map snd (fst (merge_loop sched st))) @ somes (stderr_queue (snd (merge_loop sched st)))
     = somes (stderr_queue st)"
proof (induction sched arbitrary: st)
  case Nil
  then show ?case by simp
next
  case (Cons av sched)
  let ?st = "merge_polls av st"
  have ok: "err_ok ?st"
    using Cons.prems by (simp add: merge_polls_def poll_stderr_ok(1))
  have step: "somes [eline ?st] @ somes (stderr_queue ?st) = somes (stderr_queue st)"
    using Cons.prems poll_stderr_ok(2) [of "poll_stdout (fst av) st" "snd av"]
    by (simp add: merge_polls_def)
  show ?case
  proof (cases "stdout_live st \<or> stderr_live st")
    case True
    with Cons.IH [OF ok] step show ?thesis
      by (simp add: case_prod_beta merge_yield_snd del: somes.simps)
  next
    case False
    with Cons.prems show ?thesis by simp
  qed
qed

lemma merge_loop_finishes:
  "out_ok st \<Longrightarrow> err_ok st \<Longrightarrow>
   length (stdout_queue st) \<le> length (filter fst sched) \<Longrightarrow>
   length (stderr_queue st) \<le> length (filter snd sched) \<Longrightarrow>
   \<not> stdout_live (snd (merge_loop sched st)) \<and> \<not> stderr_live (snd (merge_loop sched st))"
proof (induction sched arbitrary: st)
  case Nil
  then show ?case by (auto simp: out_ok_def err_ok_def split: if_splits)
next
  case (Cons av sched)
  let ?st = "merge_polls av st"
  have ok: "out_ok ?st" "err_ok ?st"
    using Cons.prems by (simp_all add: merge_polls_def poll_stdout_ok(1) poll_stderr_ok(1))
  have lo: "length (stdout_queue ?st) \<le> length (filter fst sched)"
    using Cons.prems poll_stdout_ok(3) [of st "fst av"]
    by (simp add: merge_polls_def split: if_splits)
  have le: "length (stderr_queue ?st) \<le> length (filter snd sched)"
    using Cons.prems poll_stderr_ok(3) [of "poll_stdout (fst av) st" "snd av"]
    by (simp add: merge_polls_def split: if_splits)
  show ?case
    using Cons.IH [OF ok lo le] by (simp add: case_prod_beta)
qed









section \<open>Properties of the wait-based multiplexer\<close>

lemma zip_longest_length: "length (zip_longest xs ys) = max (length xs) (length ys)"
  by (induction xs ys rule: zip_longest.induct) simp_all

lemma zip_longest_nth:
  "i < max (length xs) (length ys) \<Longrightarrow>
   zip_longest xs ys ! i =
     (if i < length xs then Some (xs ! i) else None, if i < length ys then Some (ys ! i) else None)"
proof (induction xs ys arbitrary: i rule: zip_longest.induct)
  case 1
  then show ?case by simp
next
  case (2 x xs)
  then show ?case by (cases i) simp_all
next
  case (3 y ys)
  then show ?case by (cases i) simp_all
next
  case (4 x xs y ys)
  then show ?case by (cases i) simp_all
qed

lemma zip_longest_somes:
  "somes (map fst (zip_longest xs ys)) = xs" "somes (map snd (zip_longest xs ys)) = ys"
  by (induction xs ys rule: zip_longest.induct) simp_all

lemma select_loop_length: "length (fst (select_loop rets p)) = length rets"
  by (induction rets arbitrary: p) (simp_all add: case_prod_beta Let_def)

lemma select_loop_text:
  "concat (somes (map fst (fst (select_loop rets p)))) @ stdout (snd (select_loop rets p)) = stdout p
   \<and> concat (somes (map snd (fst (select_loop rets p)))) @ stderr (snd (select_loop rets p)) = stderr p
   \<and> returncode (snd (select_loop rets p)) = returncode p"
proof (induction rets arbitrary: p)
  case Nil
  show ?case by simp
next
  case (Cons ret rets)
  show ?case
    using readline_append [of "stdout p"] readline_append [of "stderr p"]
    by (cases "fst ret"; cases "snd ret") (simp_all add: case_prod_beta Cons)
qed

lemma select_drain_records:
  "fst (select_drain p) =
     zip_longest (fst (textio_iterlines (stdout p))) (fst (textio_iterlines (stderr p)))"
  by (simp add: select_drain_def case_prod_beta)

lemma select_drain_proc: "snd (select_drain p) = p\<lparr>stdout := [], stderr := []\<rparr>"
  by (simp add: select_drain_def case_prod_beta textio_iterlines_rest)

lemma proc_iteroutput_select_eq:
  "proc_iteroutput_select tm p =
     (fst (select_loop (wakeups tm) p) @ fst (select_drain (snd (select_loop (wakeups tm) p))),
      (snd (select_loop (wakeups tm) p))\<lparr>stdout := [], stderr := []\<rparr>, True)"
  by (simp add: proc_iteroutput_select_def case_prod_beta select_drain_proc)

text \<open>
  Claim C7.  For a process in the state in which the first loop of the wait-based
  multiplexer leaves it, the records that follow are the residual lines of stdout and of
  stderr paired by position: there are as many records as the longer of the two sequences
  has lines, the record at a position holds the line of each stream at that position, and
  \<open>None\<close> for a stream that has no line left there.  All residual lines are emitted, in
  order, and both streams are at their end afterwards.
\<close>

theorem select_drain_zips:
  "fst (proc_iteroutput_select tm p) =
     fst (select_loop (wakeups tm) p) @ fst (select_drain (snd (select_loop (wakeups tm) p)))
   \<and> length (fst (select_drain q)) =
       max (length (fst (textio_iterlines (stdout q)))) (length (fst (textio_iterlines (stderr q))))
   \<and> (\<forall>i < length (fst (select_drain q)).
         fst (select_drain q) ! i =
           (if i < length (fst (textio_iterlines (stdout q)))
            then Some (fst (textio_iterlines (stdout q)) ! i) else None,
            if i < length (fst (textio_iterlines (stderr q)))
            then Some (fst (textio_iterlines (stderr q)) ! i) else None))
   \<and> somes (map fst (fst (select_drain q))) = fst (textio_iterlines (stdout q))
   \<and> somes (map snd (fst (select_drain q))) = fst (textio_iterlines (stderr q))
   \<and> concat (somes (map fst (fst (select_drain q)))) = stdout q
   \<and> concat (somes (map snd (fst (select_drain q)))) = stderr q
   \<and> stdout (snd (select_drain q)) = [] \<and> stderr (snd (select_drain q)) = []"
  by (simp add: proc_iteroutput_select_eq select_drain_records select_drain_proc
      zip_longest_length zip_longest_nth zip_longest_somes textio_iterlines_concat)

theorem select_drain_zips_witness:
  "fst (select_drain \<lparr>stdout = ''a\<newline>b'', stderr = ''x'', returncode = 0\<rparr>)
     = [(Some ''a\<newline>'', Some ''x''), (Some ''b'', None)]"
proof -
  let ?q = "\<lparr>stdout = ''a\<newline>b'', stderr = ''x'', returncode = 0\<rparr>"
  have o: "fst (textio_iterlines (stdout ?q)) = [''a\<newline>'', ''b'']"
    by (simp add: textio_iterlines_step newline_def)
  have e: "fst (textio_iterlines (stderr ?q)) = [''x'']"
    by (simp add: textio_iterlines_step newline_def)
  from select_drain_zips [of "\<lparr>polls_out = 0, polls_err = 0, arrivals = [], wakeups = []\<rparr>" ?q ?q]
  have len: "length (fst (select_drain ?q)) = 2"
    and nth: "\<forall>i < length (fst (select_drain ?q)).
         fst (select_drain ?q) ! i =
           (if i < length (fst (textio_iterlines (stdout ?q)))
            then Some (fst (textio_iterlines (stdout ?q)) ! i) else None,
            if i < length (fst (textio_iterlines (stderr ?q)))
            then Some (fst (textio_iterlines (stderr ?q)) ! i) else None)"
    unfolding o e by simp_all
  from nth len have "fst (select_drain ?q) ! 0 = (Some ''a\<newline>'', Some ''x'')"
    and "fst (select_drain ?q) ! 1 = (Some ''b'', None)"
    unfolding o e by simp_all
  with len show ?thesis
    by (simp add: list_eq_iff_nth_eq less_Suc_eq numeral_2_eq_2)
qed

section \<open>Properties of the tee controller\<close>

lemma lines_of_simps [simp]:
  "lines_of [] = []"
  "lines_of (None # xs) = lines_of xs"
  "lines_of (Some line # xs) = (if line \<noteq> [] then line # lines_of xs else lines_of xs)"
  by (simp_all add: lines_of_def)

lemma lines_of_nonempty: "[] \<notin> set (lines_of xs)"
  by (simp add: lines_of_def)

lemma lines_of_mem: "Some line \<in> set xs \<Longrightarrow> line \<noteq> [] \<Longrightarrow> line \<in> set (lines_of xs)"
  by (induction xs rule: somes.induct) auto

lemma concat_lines_of: "concat (lines_of xs) = concat (somes xs)"
  by (induction xs rule: somes.induct) simp_all

lemma forward_simps [simp]:
  "forward line None = None"
  "forward line (Some w) = Some (sink_flush (sink_write line w))"
  by (simp_all add: forward_def)

lemma fold_forward_None [simp]: "fold forward ls None = None"
  by (induction ls) simp_all

lemma fold_forward_Some:
  "\<exists>w'. fold forward ls (Some w) = Some w' \<and> sink_text w' = sink_text w @ ls
        \<and> (ls \<noteq> [] \<longrightarrow> pending w' = [])"
proof (induction ls arbitrary: w rule: rev_induct)
  case Nil
  show ?case by simp
next
  case (snoc l ls)
  from snoc [of w] obtain w' where "fold forward ls (Some w) = Some w'"
    "sink_text w' = sink_text w @ ls" by blast
  then show ?case
    by (simp add: sink_flush_def sink_write_def sink_text_def)
qed

lemma tee_out_fields [simp]:
  "logged_out (tee_out ol ts) = logged_out ts @ lines_of [ol]"
  "logged_err (tee_out ol ts) = logged_err ts"
  "fwd_stdout (tee_out ol ts) = fold forward (lines_of [ol]) (fwd_stdout ts)"
  "fwd_stderr (tee_out ol ts) = fwd_stderr ts"
  by (cases ol; simp add: tee_out_def)+

lemma tee_err_fields [simp]:
  "logged_err (tee_err el ts) = logged_err ts @ lines_of [el]"
  "logged_out (tee_err el ts) = logged_out ts"
  "fwd_stderr (tee_err el ts) = fold forward (lines_of [el]) (fwd_stderr ts)"
  "fwd_stdout (tee_err el ts) = fwd_stdout ts"
  by (cases el; simp add: tee_err_def)+

lemma lines_of_Cons: "lines_of (x # xs) = lines_of [x] @ lines_of xs"
  by (cases x) simp_all

lemma tee_loop_fields:
  "logged_out (tee_loop records ts) = logged_out ts @ lines_of (map fst records)"
  "logged_err (tee_loop records ts) = logged_err ts @ lines_of (map snd records)"
  "fwd_stdout (tee_loop records ts) = fold forward (lines_of (map fst records)) (fwd_stdout ts)"
  "fwd_stderr (tee_loop records ts) = fold forward (lines_of (map snd records)) (fwd_stderr ts)"
proof (induction records arbitrary: ts)
  case Nil
  {
    case 1 show ?case by simp
  next
    case 2 show ?case by simp
  next
    case 3 show ?case by simp
  next
    case 4 show ?case by simp
  }
next
  case (Cons r records)
  obtain ol el where r: "r = (ol, el)" by (cases r)
  {
    case 1 show ?case
      by (simp add: r Cons.IH(1) lines_of_Cons [of ol "map fst records"])
  next
    case 2 show ?case
      by (simp add: r Cons.IH(2) lines_of_Cons [of el "map snd records"])
  next
    case 3 show ?case
      by (simp add: r Cons.IH(3) lines_of_Cons [of ol "map fst records"])
  next
    case 4 show ?case
      by (simp add: r Cons.IH(4) lines_of_Cons [of el "map snd records"])
  }
qed

lemma tee_output_invalid:
  "backend \<noteq> ''auto'' \<Longrightarrow> backend \<noteq> ''select'' \<Longrightarrow> backend \<noteq> ''thread'' \<Longrightarrow>
   tee_output posix tm make_proc so se backend =
     \<lparr>returned = Some (Inl (ValueError ''backend must be select, thread, or auto'')),
      made_procs = 0, stdout_after = so, stderr_after = se\<rparr>"
  by (simp add: tee_output_def)

lemma tee_output_unsupported:
  "\<not> posix \<Longrightarrow>
   tee_output posix tm make_proc so se ''select'' =
     \<lparr>returned = Some (Inl (NotImplementedError ''select is only available on posix'')),
      made_procs = 0, stdout_after = so, stderr_after = se\<rparr>"
  by (simp add: tee_output_def)

lemma tee_output_launch_failed:
  "backend_ok posix backend \<Longrightarrow>
   tee_output posix tm (Inl e) so se backend =
     \<lparr>returned = Some (Inl e), made_procs = 1, stdout_after = so, stderr_after = se\<rparr>"
  by (auto simp: tee_output_def backend_ok_def)

lemma tee_output_run:
  "backend_ok posix backend \<Longrightarrow>
   tee_output posix tm (Inr p) so se backend =
     \<lparr>returned =
        (if snd (snd (multiplexer backend tm p))
         then Some (Inr (fst (snd (multiplexer backend tm p)),
                         lines_of (map fst (fst (multiplexer backend tm p))),
                         lines_of (map snd (fst (multiplexer backend tm p)))))
         else None),
      made_procs = 1,
      stdout_after = fold forward (lines_of (map fst (fst (multiplexer backend tm p)))) so,
      stderr_after = fold forward (lines_of (map snd (fst (multiplexer backend tm p)))) se\<rparr>"
  by (auto simp: tee_output_def backend_ok_def multiplexer_def case_prod_beta Let_def
      tee_loop_fields tee_init_def)

lemma tee_output_cases:
  obtains
    (invalid) "\<not> backend_ok posix backend"
      "made_procs (tee_output posix tm make_proc so se backend) = 0"
      "\<exists>e. returned (tee_output posix tm make_proc so se backend) = Some (Inl e)"
      "stdout_after (tee_output posix tm make_proc so se backend) = so"
      "stderr_after (tee_output posix tm make_proc so se backend) = se"
  | (failed) e where "backend_ok posix backend" "make_proc = Inl e"
  | (run) p where "backend_ok posix backend" "make_proc = Inr p"
proof (cases "backend_ok posix backend")
  case True
  then show ?thesis
    by (cases make_proc) (auto intro: failed run)
next
  case bad: False
  show ?thesis
  proof (cases "backend = ''select''")
    case True
    with bad have "\<not> posix" by (simp add: backend_ok_def)
    with True bad show ?thesis
      by (intro invalid) (simp_all add: tee_output_unsupported)
  next
    case False
    with bad have "backend \<noteq> ''auto''" "backend \<noteq> ''select''" "backend \<noteq> ''thread''"
      by (simp_all add: backend_ok_def)
    with bad show ?thesis
      by (intro invalid) (simp_all add: tee_output_invalid)
  qed
qed

text \<open>
  Claim C3.  \<^verbatim>\<open>_tee_output\<close> calls the factory once when the backend is valid
  (\<^verbatim>\<open>auto\<close>, \<^verbatim>\<open>thread\<close>, or \<^verbatim>\<open>select\<close> on a POSIX platform) and not at all otherwise:
  for a name other than the three it raises the \<^verbatim>\<open>ValueError\<close>, and for \<^verbatim>\<open>select\<close>
  on a platform that is not POSIX it raises the \<^verbatim>\<open>NotImplementedError\<close>, in both cases
  with no call of the factory and with the sinks untouched.
\<close>

theorem tee_output_validates_before_launch:
  "made_procs (tee_output posix tm make_proc so se backend) =
     (if backend_ok posix backend then 1 else 0)
   \<and> (backend \<noteq> ''auto'' \<and> backend \<noteq> ''select'' \<and> backend \<noteq> ''thread'' \<longrightarrow>
        tee_output posix tm make_proc so se backend =
          \<lparr>returned = Some (Inl (ValueError ''backend must be select, thread, or auto'')),
           made_procs = 0, stdout_after = so, stderr_after = se\<rparr>)
   \<and> (backend = ''select'' \<and> \<not> posix \<longrightarrow>
        tee_output posix tm make_proc so se backend =
          \<lparr>returned = Some (Inl (NotImplementedError ''select is only available on posix'')),
           made_procs = 0, stdout_after = so, stderr_after = se\<rparr>)"
proof -
  have "made_procs (tee_output posix tm make_proc so se backend) =
     (if backend_ok posix backend then 1 else 0)"
    by (cases rule: tee_output_cases [of posix backend tm make_proc so se])
       (simp_all add: tee_output_launch_failed tee_output_run)
  then show ?thesis
    by (simp add: tee_output_invalid tee_output_unsupported)
qed

theorem tee_output_validates_before_launch_witness:
  "tee_output False \<lparr>polls_out = 0, polls_err = 0, arrivals = [], wakeups = []\<rparr>
      (Inr \<lparr>stdout = ''hello\<newline>'', stderr = [], returncode = 0\<rparr>) None None ''select''
     = \<lparr>returned = Some (Inl (NotImplementedError ''select is only available on posix'')),
        made_procs = 0, stdout_after = None, stderr_after = None\<rparr>
   \<and> tee_output True \<lparr>polls_out = 0, polls_err = 0, arrivals = [], wakeups = []\<rparr>
      (Inr \<lparr>stdout = ''hello\<newline>'', stderr = [], returncode = 0\<rparr>) None None ''poll''
     = \<lparr>returned = Some (Inl (ValueError ''backend must be select, thread, or auto'')),
        made_procs = 0, stdout_after = None, stderr_after = None\<rparr>"
  using tee_output_validates_before_launch [of False
      "\<lparr>polls_out = 0, polls_err = 0, arrivals = [], wakeups = []\<rparr>"
      "Inr \<lparr>stdout = ''hello\<newline>'', stderr = [], returncode = 0\<rparr>" None None "''select''"]
    tee_output_validates_before_launch [of True
      "\<lparr>polls_out = 0, polls_err = 0, arrivals = [], wakeups = []\<rparr>"
      "Inr \<lparr>stdout = ''hello\<newline>'', stderr = [], returncode = 0\<rparr>" None None "''poll''"]
  by simp

text \<open>
  Claim C2.  The capture buffers of \<^verbatim>\<open>_tee_output\<close> are the lines among the stdout and
  the stderr components of the records of the multiplexer, in order, whatever sinks are
  given: each line of a record is in the buffer of its side, and what the function
  returns with sinks is what it returns without them.  A side for which no sink is given
  has none after the call.  This holds of the loop on any sequence of records, and of
  \<^verbatim>\<open>_tee_output\<close> as a whole: with the backend \<^verbatim>\<open>select\<close> on a POSIX platform it
  returns the process and the lines of the records of the wait-based multiplexer, with
  the backend \<^verbatim>\<open>auto\<close> or \<^verbatim>\<open>thread\<close> those of the thread-based multiplexer once that
  one has come to its end, and whatever buffers it returns are the lines of the records
  of the multiplexer of its backend.
\<close>

theorem tee_captures_regardless_of_sink:
  "logged_out (tee_loop records (tee_init so se)) = lines_of (map fst records)
   \<and> logged_err (tee_loop records (tee_init so se)) = lines_of (map snd records)
   \<and> (\<forall>r \<in> set records. \<forall>line. line \<noteq> [] \<longrightarrow>
         (fst r = Some line \<longrightarrow> line \<in> set (logged_out (tee_loop records (tee_init so se)))) \<and>
         (snd r = Some line \<longrightarrow> line \<in> set (logged_err (tee_loop records (tee_init so se)))))
   \<and> returned (tee_output posix tm make_proc so se backend) =
       returned (tee_output posix tm make_proc None None backend)
   \<and> made_procs (tee_output posix tm make_proc so se backend) =
       made_procs (tee_output posix tm make_proc None None backend)
   \<and> stdout_after (tee_output posix tm make_proc None se backend) = None
   \<and> stderr_after (tee_output posix tm make_proc so None backend) = None
   \<and> (posix \<longrightarrow>
        returned (tee_output posix tm (Inr p) so se ''select'') =
          Some (Inr (fst (snd (proc_iteroutput_select tm p)),
                     lines_of (map fst (fst (proc_iteroutput_select tm p))),
                     lines_of (map snd (fst (proc_iteroutput_select tm p))))))
   \<and> (backend = ''auto'' \<or> backend = ''thread'' \<longrightarrow>
        returned (tee_output posix tm (Inr p) so se backend) =
          (if snd (snd (proc_iteroutput_thread tm p))
           then Some (Inr (fst (snd (proc_iteroutput_thread tm p)),
                           lines_of (map fst (fst (proc_iteroutput_thread tm p))),
                           lines_of (map snd (fst (proc_iteroutput_thread tm p)))))
           else None))
   \<and> (returned (tee_output posix tm (Inr p) so se backend) = Some (Inr (p', lo, le)) \<longrightarrow>
        lo = lines_of (map fst (fst (multiplexer backend tm p)))
        \<and> le = lines_of (map snd (fst (multiplexer backend tm p)))
        \<and> (\<forall>r \<in> set (fst (multiplexer backend tm p)). \<forall>line. line \<noteq> [] \<longrightarrow>
              (fst r = Some line \<longrightarrow> line \<in> set lo) \<and> (snd r = Some line \<longrightarrow> line \<in> set le)))"
proof -
  have mem: "line \<in> set (lines_of (map fst rs))"
    if "r \<in> set rs" "fst r = Some line" "line \<noteq> []" for r line and rs :: "merge_record list"
    using that by (intro lines_of_mem) force+
  have mem': "line \<in> set (lines_of (map snd rs))"
    if "r \<in> set rs" "snd r = Some line" "line \<noteq> []" for r line and rs :: "merge_record list"
    using that by (intro lines_of_mem) force+
  have ret: "returned (tee_output posix tm make_proc so' se' backend) =
       returned (tee_output posix tm make_proc None None backend)
     \<and> made_procs (tee_output posix tm make_proc so' se' backend) =
       made_procs (tee_output posix tm make_proc None None backend)" for so' se'
  proof (cases "backend_ok posix backend")
    case True
    then show ?thesis
      by (cases make_proc) (simp_all add: tee_output_launch_failed tee_output_run)
  next
    case False
    then show ?thesis
      using tee_output_invalid [of backend posix tm make_proc]
        tee_output_unsupported [of posix tm make_proc]
      by (cases "backend = ''select''") (auto simp: backend_ok_def)
  qed
  have none: "stdout_after (tee_output posix tm make_proc None se backend) = None"
    by (cases rule: tee_output_cases [of posix backend tm make_proc None se])
       (simp_all add: tee_output_launch_failed tee_output_run)
  have none': "stderr_after (tee_output posix tm make_proc so None backend) = None"
    by (cases rule: tee_output_cases [of posix backend tm make_proc so None])
       (simp_all add: tee_output_launch_failed tee_output_run)
  have sel: "returned (tee_output posix tm (Inr p) so se ''select'') =
          Some (Inr (fst (snd (proc_iteroutput_select tm p)),
                     lines_of (map fst (fst (proc_iteroutput_select tm p))),
                     lines_of (map snd (fst (proc_iteroutput_select tm p)))))"
    if posix
  proof -
    from that have ok: "backend_ok posix ''select''"
      by (simp add: backend_ok_def)
    show ?thesis
      by (simp add: tee_output_run [OF ok] multiplexer_def proc_iteroutput_select_eq)
  qed
  have thr: "returned (tee_output posix tm (Inr p) so se backend) =
          (if snd (snd (proc_iteroutput_thread tm p))
           then Some (Inr (fst (snd (proc_iteroutput_thread tm p)),
                           lines_of (map fst (fst (proc_iteroutput_thread tm p))),
                           lines_of (map snd (fst (proc_iteroutput_thread tm p)))))
           else None)"
    if b: "backend = ''auto'' \<or> backend = ''thread''"
  proof -
    from b have ok: "backend_ok posix backend"
      by (auto simp: backend_ok_def)
    from b have m: "multiplexer backend = proc_iteroutput_thread"
      by (auto simp: multiplexer_def)
    show ?thesis
      by (simp add: tee_output_run [OF ok] m)
  qed
  have run: "lo = lines_of (map fst (fst (multiplexer backend tm p)))
        \<and> le = lines_of (map snd (fst (multiplexer backend tm p)))"
    if r: "returned (tee_output posix tm (Inr p) so se backend) = Some (Inr (p', lo, le))"
  proof (cases "backend_ok posix backend")
    case True
    from r show ?thesis
      by (simp add: tee_output_run [OF True] split: if_splits)
  next
    case False
    then show ?thesis
      using r tee_output_invalid [of backend posix tm "Inr p" so se]
        tee_output_unsupported [of posix tm "Inr p" so se]
      by (cases "backend = ''select''") (auto simp: backend_ok_def)
  qed
  have part1: "logged_out (tee_loop records (tee_init so se)) = lines_of (map fst records)
   \<and> logged_err (tee_loop records (tee_init so se)) = lines_of (map snd records)
   \<and> (\<forall>r \<in> set records. \<forall>line. line \<noteq> [] \<longrightarrow>
         (fst r = Some line \<longrightarrow> line \<in> set (logged_out (tee_loop records (tee_init so se)))) \<and>
         (snd r = Some line \<longrightarrow> line \<in> set (logged_err (tee_loop records (tee_init so se)))))"
    using mem [of _ records] mem' [of _ records]
    by (simp add: tee_loop_fields tee_init_def)
  have part3: "returned (tee_output posix tm (Inr p) so se backend) = Some (Inr (p', lo, le)) \<longrightarrow>
        lo = lines_of (map fst (fst (multiplexer backend tm p)))
        \<and> le = lines_of (map snd (fst (multiplexer backend tm p)))
        \<and> (\<forall>r \<in> set (fst (multiplexer backend tm p)). \<forall>line. line \<noteq> [] \<longrightarrow>
              (fst r = Some line \<longrightarrow> line \<in> set lo) \<and> (snd r = Some line \<longrightarrow> line \<in> set le))"
    using run mem [of _ "fst (multiplexer backend tm p)"] mem' [of _ "fst (multiplexer backend tm p)"]
    by blast
  from part1 ret [of so se] none none' sel thr part3 show ?thesis
    by blast
qed

theorem tee_captures_regardless_of_sink_witness:
  "returned (tee_output True \<lparr>polls_out = 0, polls_err = 0, arrivals = [], wakeups = []\<rparr>
      (Inr \<lparr>stdout = ''a\<newline>b'', stderr = ''x'', returncode = 0\<rparr>)
      (Some \<lparr>pending = [], flushed = []\<rparr>) None ''select'')
     = Some (Inr (\<lparr>stdout = [], stderr = [], returncode = 0\<rparr>, [''a\<newline>'', ''b''], [''x'']))
   \<and> returned (tee_output True \<lparr>polls_out = 0, polls_err = 0, arrivals = [], wakeups = []\<rparr>
      (Inr \<lparr>stdout = ''a\<newline>b'', stderr = ''x'', returncode = 0\<rparr>) None None ''select'')
     = Some (Inr (\<lparr>stdout = [], stderr = [], returncode = 0\<rparr>, [''a\<newline>'', ''b''], [''x'']))
   \<and> returned (tee_output False
      \<lparr>polls_out = 1, polls_err = 0, arrivals = [(True, True), (True, True), (True, False)],
       wakeups = []\<rparr>
      (Inr \<lparr>stdout = ''a\<newline>b'', stderr = ''x'', returncode = 0\<rparr>)
      None (Some \<lparr>pending = [], flushed = []\<rparr>) ''auto'')
     = Some (Inr (\<lparr>stdout = [], stderr = [], returncode = 0\<rparr>, [''a\<newline>'', ''b''], [''x'']))
   \<and> (Some ''a'', Some []) \<in> set [(Some ''a'', Some []), (None, Some ''x'')]
   \<and> ''a'' \<in> set (logged_out (tee_loop [(Some ''a'', Some []), (None, Some ''x'')]
                                  (tee_init None (Some \<lparr>pending = [], flushed = []\<rparr>))))
   \<and> ''x'' \<in> set (logged_err (tee_loop [(Some ''a'', Some []), (None, Some ''x'')]
                                  (tee_init None (Some \<lparr>pending = [], flushed = []\<rparr>))))"
proof -
  let ?p = "\<lparr>stdout = ''a\<newline>b'', stderr = ''x'', returncode = 0\<rparr>"
  let ?w = "\<lparr>pending = [], flushed = []\<rparr>"
  let ?tm = "\<lparr>polls_out = 0, polls_err = 0, arrivals = [], wakeups = []\<rparr>"
  let ?tm' = "\<lparr>polls_out = 1, polls_err = 0,
               arrivals = [(True, True), (True, True), (True, False)], wakeups = []\<rparr>"
  let ?q = "\<lparr>stdout = [], stderr = [], returncode = 0\<rparr>"
  let ?recs = "[(Some ''a'', Some []), (None, Some ''x'')]"
  have s: "Some (Inr (fst (snd (proc_iteroutput_select ?tm ?p)),
                     lines_of (map fst (fst (proc_iteroutput_select ?tm ?p))),
                     lines_of (map snd (fst (proc_iteroutput_select ?tm ?p)))))
           = (Some (Inr (?q, [''a\<newline>'', ''b''], [''x'']))
                :: (error + proc \<times> string list \<times> string list) option)"
    by code_simp
  have t: "(if snd (snd (proc_iteroutput_thread ?tm' ?p))
           then Some (Inr (fst (snd (proc_iteroutput_thread ?tm' ?p)),
                           lines_of (map fst (fst (proc_iteroutput_thread ?tm' ?p))),
                           lines_of (map snd (fst (proc_iteroutput_thread ?tm' ?p)))))
           else None)
           = (Some (Inr (?q, [''a\<newline>'', ''b''], [''x'']))
                :: (error + proc \<times> string list \<times> string list) option)"
    by code_simp
  note a = tee_captures_regardless_of_sink [of ?recs None "Some ?w" True ?tm "Inr ?p"
      "''select''" ?p ?q "[''a\<newline>'', ''b'']" "[''x'']"]
  note b = tee_captures_regardless_of_sink [of "[]" "Some ?w" None True ?tm "Inr ?p"
      "''select''" ?p ?q "[''a\<newline>'', ''b'']" "[''x'']"]
  note c = tee_captures_regardless_of_sink [of "[]" None "Some ?w" False ?tm' "Inr ?p"
      "''auto''" ?p ?q "[''a\<newline>'', ''b'']" "[''x'']"]
  from b have "returned (tee_output True ?tm (Inr ?p) (Some ?w) None ''select'') =
      Some (Inr (fst (snd (proc_iteroutput_select ?tm ?p)),
                 lines_of (map fst (fst (proc_iteroutput_select ?tm ?p))),
                 lines_of (map snd (fst (proc_iteroutput_select ?tm ?p)))))"
    by blast
  also note s
  finally have r1: "returned (tee_output True ?tm (Inr ?p) (Some ?w) None ''select'') =
      Some (Inr (?q, [''a\<newline>'', ''b''], [''x'']))" .
  from b have "returned (tee_output True ?tm (Inr ?p) None None ''select'') =
      returned (tee_output True ?tm (Inr ?p) (Some ?w) None ''select'')"
    by (elim conjE) (rule sym)
  also note r1
  finally have r2: "returned (tee_output True ?tm (Inr ?p) None None ''select'') =
      Some (Inr (?q, [''a\<newline>'', ''b''], [''x'']))" .
  from c have "returned (tee_output False ?tm' (Inr ?p) None (Some ?w) ''auto'') =
      (if snd (snd (proc_iteroutput_thread ?tm' ?p))
           then Some (Inr (fst (snd (proc_iteroutput_thread ?tm' ?p)),
                           lines_of (map fst (fst (proc_iteroutput_thread ?tm' ?p))),
                           lines_of (map snd (fst (proc_iteroutput_thread ?tm' ?p)))))
           else None)"
    by blast
  also note t
  finally have r3: "returned (tee_output False ?tm' (Inr ?p) None (Some ?w) ''auto'') =
      Some (Inr (?q, [''a\<newline>'', ''b''], [''x'']))" .
  from a have m: "\<forall>r \<in> set ?recs. \<forall>line. line \<noteq> [] \<longrightarrow>
         (fst r = Some line \<longrightarrow>
            line \<in> set (logged_out (tee_loop ?recs (tee_init None (Some ?w))))) \<and>
         (snd r = Some line \<longrightarrow>
            line \<in> set (logged_err (tee_loop ?recs (tee_init None (Some ?w)))))"
    by (elim conjE)
  from m have "''a'' \<in> set (logged_out (tee_loop ?recs (tee_init None (Some ?w))))"
    and "''x'' \<in> set (logged_err (tee_loop ?recs (tee_init None (Some ?w))))"
    by simp_all
  with r1 r2 r3 show ?thesis
    by simp
qed

text \<open>
  Claim C8.  When a sink is given for a stream, it receives during the call the lines
  that are appended to the capture buffer of that stream, in the same order, after what
  it had received before, and each of them is flushed.
\<close>

theorem tee_forwards_what_it_captures:
  "(\<exists>w'. fwd_stdout (tee_loop records (tee_init (Some w) se)) = Some w'
         \<and> sink_text w' = sink_text w @ logged_out (tee_loop records (tee_init (Some w) se))
         \<and> (logged_out (tee_loop records (tee_init (Some w) se)) \<noteq> [] \<longrightarrow> pending w' = []))
   \<and> (\<exists>w'. fwd_stderr (tee_loop records (tee_init so (Some w))) = Some w'
         \<and> sink_text w' = sink_text w @ logged_err (tee_loop records (tee_init so (Some w)))
         \<and> (logged_err (tee_loop records (tee_init so (Some w))) \<noteq> [] \<longrightarrow> pending w' = []))
   \<and> (returned (tee_output posix tm make_proc (Some w) se backend) = Some (Inr (p', lo, le)) \<longrightarrow>
        (\<exists>w'. stdout_after (tee_output posix tm make_proc (Some w) se backend) = Some w'
           \<and> sink_text w' = sink_text w @ lo \<and> (lo \<noteq> [] \<longrightarrow> pending w' = [])))
   \<and> (returned (tee_output posix tm make_proc so (Some w) backend) = Some (Inr (p', lo, le)) \<longrightarrow>
        (\<exists>w'. stderr_after (tee_output posix tm make_proc so (Some w) backend) = Some w'
           \<and> sink_text w' = sink_text w @ le \<and> (le \<noteq> [] \<longrightarrow> pending w' = [])))"
proof -
  have a: "\<exists>w'. stdout_after (tee_output posix tm make_proc (Some w) se backend) = Some w'
           \<and> sink_text w' = sink_text w @ lo \<and> (lo \<noteq> [] \<longrightarrow> pending w' = [])"
    if "returned (tee_output posix tm make_proc (Some w) se backend) = Some (Inr (p', lo, le))"
    using that
    by (cases rule: tee_output_cases [of posix backend tm make_proc "Some w" se])
       (auto simp: tee_output_launch_failed tee_output_run fold_forward_Some split: if_splits)
  have b: "\<exists>w'. stderr_after (tee_output posix tm make_proc so (Some w) backend) = Some w'
           \<and> sink_text w' = sink_text w @ le \<and> (le \<noteq> [] \<longrightarrow> pending w' = [])"
    if "returned (tee_output posix tm make_proc so (Some w) backend) = Some (Inr (p', lo, le))"
    using that
    by (cases rule: tee_output_cases [of posix backend tm make_proc so "Some w"])
       (auto simp: tee_output_launch_failed tee_output_run fold_forward_Some split: if_splits)
  show ?thesis
    using a b by (simp add: tee_loop_fields tee_init_def fold_forward_Some)
qed

theorem tee_forwards_what_it_captures_witness:
  "returned (tee_output True \<lparr>polls_out = 0, polls_err = 0, arrivals = [], wakeups = []\<rparr>
      (Inr \<lparr>stdout = ''a\<newline>b'', stderr = [], returncode = 0\<rparr>)
      (Some \<lparr>pending = [''$ ''], flushed = []\<rparr>) None ''select'')
     = Some (Inr (\<lparr>stdout = [], stderr = [], returncode = 0\<rparr>, [''a\<newline>'', ''b''], []))
   \<and> (\<exists>w'. stdout_after (tee_output True \<lparr>polls_out = 0, polls_err = 0, arrivals = [], wakeups = []\<rparr>
      (Inr \<lparr>stdout = ''a\<newline>b'', stderr = [], returncode = 0\<rparr>)
      (Some \<lparr>pending = [''$ ''], flushed = []\<rparr>) None ''select'') = Some w'
        \<and> sink_text w' = [''$ '', ''a\<newline>'', ''b''] \<and> pending w' = [])"
proof -
  let ?r = "tee_output True \<lparr>polls_out = 0, polls_err = 0, arrivals = [], wakeups = []\<rparr>
      (Inr \<lparr>stdout = ''a\<newline>b'', stderr = [], returncode = 0\<rparr>)
      (Some \<lparr>pending = [''$ ''], flushed = []\<rparr>) None ''select''"
  have h: "returned ?r
     = Some (Inr (\<lparr>stdout = [], stderr = [], returncode = 0\<rparr>, [''a\<newline>'', ''b''], []))"
    by code_simp
  from h tee_forwards_what_it_captures [of "[]" "\<lparr>pending = [''$ ''], flushed = []\<rparr>" None None
      True "\<lparr>polls_out = 0, polls_err = 0, arrivals = [], wakeups = []\<rparr>"
      "Inr \<lparr>stdout = ''a\<newline>b'', stderr = [], returncode = 0\<rparr>" "''select''"
      "\<lparr>stdout = [], stderr = [], returncode = 0\<rparr>" "[''a\<newline>'', ''b'']" "[]"]
  show ?thesis
    by (simp add: sink_text_def)
qed

text \<open>
  Claim C9.  A component of a record that is the empty string is passed over by
  \<^verbatim>\<open>_tee_output\<close>: it is neither written to the sink nor appended to the capture buffer,
  so a record stands for the same as the record with \<open>None\<close> in its place.  The capture
  buffers that the function returns hold no empty string, and neither does what the sinks
  receive during the call.
\<close>

theorem tee_passes_over_empty_strings:
  "tee_out (Some []) ts = ts \<and> tee_err (Some []) ts = ts
   \<and> tee_loop ((Some [], el) # records) ts = tee_loop ((None, el) # records) ts
   \<and> tee_loop ((ol, Some []) # records) ts = tee_loop ((ol, None) # records) ts
   \<and> [] \<notin> set (logged_out (tee_loop records (tee_init so se)))
   \<and> [] \<notin> set (logged_err (tee_loop records (tee_init so se)))
   \<and> (fwd_stdout ts = Some w \<longrightarrow>
        (\<exists>w' new. fwd_stdout (tee_loop records ts) = Some w'
           \<and> sink_text w' = sink_text w @ new \<and> [] \<notin> set new))
   \<and> (fwd_stderr ts = Some w \<longrightarrow>
        (\<exists>w' new. fwd_stderr (tee_loop records ts) = Some w'
           \<and> sink_text w' = sink_text w @ new \<and> [] \<notin> set new))
   \<and> (returned (tee_output posix tm make_proc so se backend) = Some (Inr (p', lo, le)) \<longrightarrow>
        [] \<notin> set lo \<and> [] \<notin> set le)"
proof -
  have a: "[] \<notin> set lo \<and> [] \<notin> set le"
    if "returned (tee_output posix tm make_proc so se backend) = Some (Inr (p', lo, le))"
    using that
    by (cases rule: tee_output_cases [of posix backend tm make_proc so se])
       (auto simp: tee_output_launch_failed tee_output_run lines_of_nonempty split: if_splits)
  have b: "\<exists>w' new. fwd_stdout (tee_loop records ts) = Some w'
           \<and> sink_text w' = sink_text w @ new \<and> [] \<notin> set new"
    if "fwd_stdout ts = Some w"
    using that fold_forward_Some [of "lines_of (map fst records)" w] lines_of_nonempty
    by (auto simp: tee_loop_fields)
  have c: "\<exists>w' new. fwd_stderr (tee_loop records ts) = Some w'
           \<and> sink_text w' = sink_text w @ new \<and> [] \<notin> set new"
    if "fwd_stderr ts = Some w"
    using that fold_forward_Some [of "lines_of (map snd records)" w] lines_of_nonempty
    by (auto simp: tee_loop_fields)
  show ?thesis
    using a b c
    by (simp add: tee_out_def tee_err_def tee_loop_fields tee_init_def lines_of_nonempty)
qed

theorem tee_passes_over_empty_strings_witness:
  "fst (enqueue_output 2 ''hello\<newline>'') = [Some ''hello\<newline>'', Some [], None]
   \<and> fst (proc_iteroutput_thread
        \<lparr>polls_out = 2, polls_err = 1, arrivals = [(True, True), (True, True), (True, True)],
         wakeups = []\<rparr>
        \<lparr>stdout = ''hello\<newline>'', stderr = [], returncode = 0\<rparr>)
       = [(Some ''hello\<newline>'', Some []), (Some [], None)]
   \<and> returned (tee_output False
        \<lparr>polls_out = 2, polls_err = 1, arrivals = [(True, True), (True, True), (True, True)],
         wakeups = []\<rparr>
        (Inr \<lparr>stdout = ''hello\<newline>'', stderr = [], returncode = 0\<rparr>) None None ''thread'')
       = Some (Inr (\<lparr>stdout = [], stderr = [], returncode = 0\<rparr>, [''hello\<newline>''], []))
   \<and> [] \<notin> set [''hello\<newline>'']"
proof -
  let ?tm = "\<lparr>polls_out = 2, polls_err = 1, arrivals = [(True, True), (True, True), (True, True)],
         wakeups = []\<rparr>"
  let ?p = "\<lparr>stdout = ''hello\<newline>'', stderr = [], returncode = 0\<rparr>"
  have w: "fst (enqueue_output 2 ''hello\<newline>'') = [Some ''hello\<newline>'', Some [], None]"
    by code_simp
  have m: "fst (proc_iteroutput_thread ?tm ?p) = [(Some ''hello\<newline>'', Some []), (Some [], None)]"
    by code_simp
  have h: "returned (tee_output False ?tm (Inr ?p) None None ''thread'')
       = Some (Inr (\<lparr>stdout = [], stderr = [], returncode = 0\<rparr>, [''hello\<newline>''], []))"
    by code_simp
  from w m h tee_passes_over_empty_strings [of
      "\<lparr>fwd_stdout = None, fwd_stderr = None, logged_out = [], logged_err = []\<rparr>"
      None "[]" None None None "\<lparr>pending = [], flushed = []\<rparr>" False ?tm "Inr ?p" "''thread''"
      "\<lparr>stdout = [], stderr = [], returncode = 0\<rparr>" "[''hello\<newline>'']" "[]"]
  show ?thesis by simp
qed

section \<open>The text that the multiplexers deliver\<close>

lemma merge_init_ok:
  "sentinel_last qo \<Longrightarrow> out_ok (merge_init qo qe)"
  "sentinel_last qe \<Longrightarrow> err_ok (merge_init qo qe)"
  by (simp_all add: out_ok_def err_ok_def merge_init_def)

lemma proc_iteroutput_thread_eq:
  "proc_iteroutput_thread tm p =
     (fst (merge_loop (arrivals tm)
             (merge_init (fst (enqueue_output (polls_out tm) (stdout p)))
                         (fst (enqueue_output (polls_err tm) (stderr p))))),
      p\<lparr>stdout := [], stderr := []\<rparr>,
      \<not> (stdout_live (snd (merge_loop (arrivals tm)
             (merge_init (fst (enqueue_output (polls_out tm) (stdout p)))
                         (fst (enqueue_output (polls_err tm) (stderr p))))))
         \<or> stderr_live (snd (merge_loop (arrivals tm)
             (merge_init (fst (enqueue_output (polls_out tm) (stdout p)))
                         (fst (enqueue_output (polls_err tm) (stderr p))))))))"
  by (simp add: proc_iteroutput_thread_def proc_async_iter_stream_def case_prod_beta
      enqueue_output_rest)

lemma proc_iteroutput_thread_text:
  assumes "snd (snd (proc_iteroutput_thread tm p))"
  shows "concat (somes (map fst (fst (proc_iteroutput_thread tm p)))) = stdout p"
    and "concat (somes (map snd (fst (proc_iteroutput_thread tm p)))) = stderr p"
proof -
  let ?qo = "fst (enqueue_output (polls_out tm) (stdout p))"
  let ?qe = "fst (enqueue_output (polls_err tm) (stderr p))"
  let ?run = "merge_loop (arrivals tm) (merge_init ?qo ?qe)"
  have fin: "\<not> stdout_live (snd ?run)" "\<not> stderr_live (snd ?run)"
    using assms by (simp_all add: proc_iteroutput_thread_eq)
  have ok: "out_ok (merge_init ?qo ?qe)" "err_ok (merge_init ?qo ?qe)"
    by (intro merge_init_ok enqueue_output_sentinel_last)+
  have q: "stdout_queue (merge_init ?qo ?qe) = ?qo" "stderr_queue (merge_init ?qo ?qe) = ?qe"
    by (simp_all add: merge_init_def)
  from merge_loop_out [OF ok(1), of "arrivals tm"]
  have o: "out_ok (snd ?run)"
    "somes (map fst (fst ?run)) @ somes (stdout_queue (snd ?run)) = somes ?qo"
    by (simp_all add: q)
  from merge_loop_err [OF ok(2), of "arrivals tm"]
  have e: "err_ok (snd ?run)"
    "somes (map snd (fst ?run)) @ somes (stderr_queue (snd ?run)) = somes ?qe"
    by (simp_all add: q)
  from o fin have "somes (map fst (fst ?run)) = somes ?qo"
    by (simp add: out_ok_def)
  then show "concat (somes (map fst (fst (proc_iteroutput_thread tm p)))) = stdout p"
    by (simp add: proc_iteroutput_thread_eq enqueue_output_text)
  from e fin have "somes (map snd (fst ?run)) = somes ?qe"
    by (simp add: err_ok_def)
  then show "concat (somes (map snd (fst (proc_iteroutput_thread tm p)))) = stderr p"
    by (simp add: proc_iteroutput_thread_eq enqueue_output_text)
qed

lemma proc_iteroutput_thread_finishes:
  assumes "length (fst (enqueue_output (polls_out tm) (stdout p))) \<le> length (filter fst (arrivals tm))"
    and "length (fst (enqueue_output (polls_err tm) (stderr p))) \<le> length (filter snd (arrivals tm))"
  shows "snd (snd (proc_iteroutput_thread tm p))"
proof -
  let ?qo = "fst (enqueue_output (polls_out tm) (stdout p))"
  let ?qe = "fst (enqueue_output (polls_err tm) (stderr p))"
  have "\<not> stdout_live (snd (merge_loop (arrivals tm) (merge_init ?qo ?qe))) \<and>
        \<not> stderr_live (snd (merge_loop (arrivals tm) (merge_init ?qo ?qe)))"
    using assms
    by (intro merge_loop_finishes merge_init_ok enqueue_output_sentinel_last)
       (simp_all add: merge_init_def)
  then show ?thesis
    by (simp add: proc_iteroutput_thread_eq)
qed

lemma proc_iteroutput_select_text:
  "concat (somes (map fst (fst (proc_iteroutput_select tm p)))) = stdout p"
  "concat (somes (map snd (fst (proc_iteroutput_select tm p)))) = stderr p"
  "returncode (fst (snd (proc_iteroutput_select tm p))) = returncode p"
  "snd (snd (proc_iteroutput_select tm p))"
  using select_loop_text [of "wakeups tm" p]
  by (simp_all add: proc_iteroutput_select_eq select_drain_records zip_longest_somes
      textio_iterlines_concat)

lemma multiplexer_text:
  assumes "snd (snd (multiplexer backend tm p))"
  shows "concat (lines_of (map fst (fst (multiplexer backend tm p)))) = stdout p"
    and "concat (lines_of (map snd (fst (multiplexer backend tm p)))) = stderr p"
    and "returncode (fst (snd (multiplexer backend tm p))) = returncode p"
  using assms proc_iteroutput_thread_text [of tm p] proc_iteroutput_select_text [of tm p]
  by (simp_all add: multiplexer_def concat_lines_of proc_iteroutput_thread_eq split: if_splits)

lemma join_empty: "join [] xs = concat xs"
  by (induction xs rule: join.induct [where P = "\<lambda>sep xs. sep = [] \<longrightarrow> join sep xs = concat xs", rule_format])
     simp_all

section \<open>Properties of the command executor\<close>

lemma cmd_result_detached:
  assumes "resolve_kwargs a = Inr (tee1, True)"
    and "popen_args pf (shell a) (command a) = Inr args"
  shows "result (cmd pf tm w1 w2 a) =
     (case Popen pf args (shell a) (cwd a) (env a) of
        Inl e \<Rightarrow> Some (Inl e)
      | Inr p \<Rightarrow> Some (Inr [''proc'' \<mapsto> PyProc p,
                              ''command'' \<mapsto> PyStr (command_text pf (command a))]))"
  using assms by (simp add: cmd_def Let_def split: sum.splits)

lemma cmd_result_plain:
  assumes "resolve_kwargs a = Inr (tee1, False)"
    and "popen_args pf (shell a) (command a) = Inr args"
    and "\<not> (case tee1 of None \<Rightarrow> verbose a > 0 | Some b \<Rightarrow> b)"
  shows "result (cmd pf tm w1 w2 a) =
     (case Popen pf args (shell a) (cwd a) (env a) of
        Inl e \<Rightarrow> Some (Inl e)
      | Inr p \<Rightarrow> Some (Inr [''out'' \<mapsto> PyStr (stdout p), ''err'' \<mapsto> PyStr (stderr p),
                              ''ret'' \<mapsto> PyInt (returncode p),
                              ''proc'' \<mapsto> PyProc (p\<lparr>stdout := [], stderr := []\<rparr>),
                              ''command'' \<mapsto> PyStr (command_text pf (command a))]))"
  using assms by (simp add: cmd_def Let_def communicate_def wait_def split: sum.splits)

lemma cmd_result_tee:
  assumes "resolve_kwargs a = Inr (tee1, False)"
    and "popen_args pf (shell a) (command a) = Inr args"
    and "case tee1 of None \<Rightarrow> verbose a > 0 | Some b \<Rightarrow> b"
  shows "result (cmd pf tm w1 w2 a) =
     (case returned (tee_output (POSIX pf) tm (Popen pf args (shell a) (cwd a) (env a))
                       (Some (print_start pf a w1)) (Some w2) (tee_backend a)) of
        None \<Rightarrow> None
      | Some (Inl e) \<Rightarrow> Some (Inl e)
      | Some (Inr (p, lines_out, lines_err)) \<Rightarrow>
          Some (Inr [''out'' \<mapsto> PyStr (concat lines_out), ''err'' \<mapsto> PyStr (concat lines_err),
                     ''ret'' \<mapsto> PyInt (returncode p),
                     ''proc'' \<mapsto> PyProc (p\<lparr>stdout := [], stderr := []\<rparr>),
                     ''command'' \<mapsto> PyStr (command_text pf (command a))]))"
  using assms
  by (simp add: cmd_def Let_def communicate_def wait_def join_empty
      split: sum.splits option.splits prod.splits)

lemma cmd_result_raises:
  "resolve_kwargs a = Inl e \<Longrightarrow> result (cmd pf tm w1 w2 a) = Some (Inl e)"
  "resolve_kwargs a = Inr k \<Longrightarrow> popen_args pf (shell a) (command a) = Inl e \<Longrightarrow>
   result (cmd pf tm w1 w2 a) = Some (Inl e)"
  by (simp_all add: cmd_def split: prod.splits)

text \<open>
  Claim C10.  Whenever \<^verbatim>\<open>cmd\<close> returns a dictionary, detached or not, its entry
  \<^verbatim>\<open>'command'\<close> is the command text: the argument itself when it is a string, and the
  quoted elements joined by single spaces when it is a sequence.  The text depends on
  the argument and on \<^verbatim>\<open>pipes.quote\<close> only, not on the process.
\<close>

theorem cmd_command_field:
  assumes "result (cmd pf tm w1 w2 a) = Some (Inr info)"
  shows "info ''command'' =
           Some (PyStr (case command a of
                          Text s \<Rightarrow> s
                        | Tup t \<Rightarrow> join '' '' (map (pipes_quote pf) t)))"
proof -
  obtain tee1 detach1 where k: "resolve_kwargs a = Inr (tee1, detach1)"
    using assms cmd_result_raises(1) [of a _ pf tm w1 w2]
    by (cases "resolve_kwargs a") auto
  obtain args where p: "popen_args pf (shell a) (command a) = Inr args"
    using assms cmd_result_raises(2) [OF k, of pf _ tm w1 w2]
    by (cases "popen_args pf (shell a) (command a)") auto
  have "info ''command'' = Some (PyStr (command_text pf (command a)))"
  proof (cases detach1)
    case True
    with assms k p show ?thesis
      by (auto simp: cmd_result_detached split: sum.splits)
  next
    case False
    show ?thesis
    proof (cases "case tee1 of None \<Rightarrow> verbose a > 0 | Some b \<Rightarrow> b")
      case True
      with assms k p False show ?thesis
        by (auto simp: cmd_result_tee split: sum.splits option.splits)
    next
      case no_tee: False
      with assms k p False show ?thesis
        by (auto simp: cmd_result_plain split: sum.splits)
    qed
  qed
  then show ?thesis
    by (simp add: command_text_def)
qed

theorem cmd_command_field_witness:
  "\<exists>info. result (cmd sample_platform sample_timing empty_sink empty_sink
                    (sample_call\<lparr>detach := True\<rparr>)) = Some (Inr info)
         \<and> info ''command'' = Some (PyStr (''echo '' @ [CHR 0x27] @ ''hello world'' @ [CHR 0x27]))"
proof -
  let ?a = "sample_call\<lparr>detach := True\<rparr>"
  have k: "resolve_kwargs ?a = Inr (None, True)"
    by (simp add: resolve_kwargs_def sample_call_def pop_def)
  have p: "popen_args sample_platform (shell ?a) (command ?a)
             = Inr (Tup [''echo'', ''hello world''])"
    by (simp add: popen_args_def command_tup_def sample_call_def sample_platform_def)
  from cmd_result_detached [OF k p, of sample_timing empty_sink empty_sink]
  obtain info where r: "result (cmd sample_platform sample_timing empty_sink empty_sink ?a)
      = Some (Inr info)"
    by (simp add: sample_platform_def)
  from cmd_command_field [OF r] have "info ''command'' =
      Some (PyStr (''echo '' @ [CHR 0x27] @ ''hello world'' @ [CHR 0x27]))"
    by (simp add: sample_call_def sample_platform_def)
  with r show ?thesis by blast
qed

lemma read_lines_length [simp]: "length (read_lines n s) = n"
  by (induction n arbitrary: s) simp_all

lemma skip_lines_Nil [simp]: "skip_lines n [] = []"
  by (induction n) simp_all

lemma enqueue_output_length:
  "length (fst (enqueue_output n s)) = n + length (fst (textio_iterlines (skip_lines n s))) + 1"
  by (simp add: enqueue_output_puts)

lemma readline_hello: "readline ''hello\<newline>'' = (''hello\<newline>'', [])"
  by (simp add: newline_def)

lemma textio_iterlines_hello: "fst (textio_iterlines ''hello\<newline>'') = [''hello\<newline>'']"
  by (simp add: textio_iterlines_step newline_def)

lemma enqueue_output_hello_length: "length (fst (enqueue_output n ''hello\<newline>'')) \<le> n + 2"
proof (cases n)
  case 0
  then show ?thesis
    by (simp add: enqueue_output_length textio_iterlines_hello)
next
  case (Suc m)
  have "skip_lines (Suc m) ''hello\<newline>'' = []"
    by (simp add: newline_def)
  with Suc show ?thesis
    by (simp only: enqueue_output_length) simp
qed

lemma tee_output_hello:
  assumes "stdout p = ''hello\<newline>''" "stderr p = []" "returncode p = 0"
  shows "returned (tee_output posix tm (Inr p) so se backend) = Some (Inr (p', lo, le)) \<Longrightarrow>
         concat lo = ''hello\<newline>'' \<and> concat le = [] \<and> returncode p' = 0"
    and "(backend = ''select'' \<and> posix) \<or>
         ((backend = ''auto'' \<or> backend = ''thread'')
          \<and> polls_out tm + 2 \<le> length (filter fst (arrivals tm))
          \<and> polls_err tm + 1 \<le> length (filter snd (arrivals tm))) \<Longrightarrow>
         \<exists>p' lo le. returned (tee_output posix tm (Inr p) so se backend) = Some (Inr (p', lo, le))"
proof -
  show "concat lo = ''hello\<newline>'' \<and> concat le = [] \<and> returncode p' = 0"
    if r: "returned (tee_output posix tm (Inr p) so se backend) = Some (Inr (p', lo, le))"
  proof (cases "backend_ok posix backend")
    case True
    from r have fin: "snd (snd (multiplexer backend tm p))"
      and eq: "p' = fst (snd (multiplexer backend tm p))"
        "lo = lines_of (map fst (fst (multiplexer backend tm p)))"
        "le = lines_of (map snd (fst (multiplexer backend tm p)))"
      by (simp_all add: tee_output_run [OF True] split: if_splits)
    from multiplexer_text [OF fin] assms show ?thesis
      by (simp add: eq)
  next
    case False
    then show ?thesis
      using r tee_output_invalid [of backend posix tm "Inr p" so se]
        tee_output_unsupported [of posix tm "Inr p" so se]
      by (cases "backend = ''select''") (auto simp: backend_ok_def)
  qed
  show "\<exists>p' lo le. returned (tee_output posix tm (Inr p) so se backend) = Some (Inr (p', lo, le))"
    if h: "(backend = ''select'' \<and> posix) \<or>
         ((backend = ''auto'' \<or> backend = ''thread'')
          \<and> polls_out tm + 2 \<le> length (filter fst (arrivals tm))
          \<and> polls_err tm + 1 \<le> length (filter snd (arrivals tm)))"
  proof -
    from h have ok: "backend_ok posix backend"
      by (auto simp: backend_ok_def)
    have "snd (snd (multiplexer backend tm p))"
    proof (cases "backend = ''select''")
      case True
      then show ?thesis
        by (simp add: multiplexer_def proc_iteroutput_select_text(4))
    next
      case False
      with h have fair: "polls_out tm + 2 \<le> length (filter fst (arrivals tm))"
        "polls_err tm + 1 \<le> length (filter snd (arrivals tm))"
        by auto
      have "snd (snd (proc_iteroutput_thread tm p))"
        using fair enqueue_output_hello_length [of "polls_out tm"] assms
        by (intro proc_iteroutput_thread_finishes) (simp_all add: enqueue_output_length)
      with False show ?thesis
        by (simp add: multiplexer_def)
    qed
    then show ?thesis
      by (simp add: tee_output_run [OF ok])
  qed
qed

text \<open>
  Claim C1.  Let \<^verbatim>\<open>cmd\<close> be called without detaching, and let the process that
  \<^verbatim>\<open>Popen\<close> launches for it write \<^verbatim>\<open>"hello\n"\<close> to its stdout, nothing to its stderr,
  and exit with code 0.  Then every dictionary that \<^verbatim>\<open>cmd\<close> returns has \<^verbatim>\<open>"hello\n"\<close>
  under \<^verbatim>\<open>'out'\<close>, the empty string under \<^verbatim>\<open>'err'\<close> and 0 under \<^verbatim>\<open>'ret'\<close>, whatever
  the timing of the threads and of the process is.  And \<^verbatim>\<open>cmd\<close> does return a
  dictionary when it does not tee, when it tees with the backend \<^verbatim>\<open>select\<close> on a POSIX
  platform, and when it tees with the backend \<^verbatim>\<open>auto\<close> or \<^verbatim>\<open>thread\<close> and the merge
  loop runs for enough iterations in which the items of the workers have arrived.
\<close>

theorem cmd_hello:
  assumes "resolve_kwargs a = Inr (tee1, False)"
    and "popen_args pf (shell a) (command a) = Inr args"
    and "Popen pf args (shell a) (cwd a) (env a) = Inr p"
    and "stdout p = ''hello\<newline>''" and "stderr p = []" and "returncode p = 0"
  shows "(\<forall>info. result (cmd pf tm w1 w2 a) = Some (Inr info) \<longrightarrow>
            info ''out'' = Some (PyStr ''hello\<newline>'')
            \<and> info ''err'' = Some (PyStr [])
            \<and> info ''ret'' = Some (PyInt 0))
       \<and> (\<not> (case tee1 of None \<Rightarrow> verbose a > 0 | Some b \<Rightarrow> b)
           \<or> (tee_backend a = ''select'' \<and> POSIX pf)
           \<or> ((tee_backend a = ''auto'' \<or> tee_backend a = ''thread'')
               \<and> polls_out tm + 2 \<le> length (filter fst (arrivals tm))
               \<and> polls_err tm + 1 \<le> length (filter snd (arrivals tm)))
           \<longrightarrow> (\<exists>info. result (cmd pf tm w1 w2 a) = Some (Inr info)))"
proof (cases "case tee1 of None \<Rightarrow> verbose a > 0 | Some b \<Rightarrow> b")
  case False
  then show ?thesis
    using assms by (auto simp: cmd_result_plain)
next
  case True
  let ?r = "returned (tee_output (POSIX pf) tm (Inr p) (Some (print_start pf a w1)) (Some w2)
                        (tee_backend a))"
  note res = cmd_result_tee [OF assms(1,2) True, of tm w1 w2, unfolded assms(3)]
  note hello = tee_output_hello [OF assms(4,5,6), where posix = "POSIX pf" and tm = tm
      and so = "Some (print_start pf a w1)" and se = "Some w2" and backend = "tee_backend a"]
  have a: "info ''out'' = Some (PyStr ''hello\<newline>'') \<and> info ''err'' = Some (PyStr [])
            \<and> info ''ret'' = Some (PyInt 0)"
    if "result (cmd pf tm w1 w2 a) = Some (Inr info)" for info
  proof -
    from that res obtain p' lo le where r: "?r = Some (Inr (p', lo, le))"
      and i: "info = [''out'' \<mapsto> PyStr (concat lo), ''err'' \<mapsto> PyStr (concat le),
                     ''ret'' \<mapsto> PyInt (returncode p'),
                     ''proc'' \<mapsto> PyProc (p'\<lparr>stdout := [], stderr := []\<rparr>),
                     ''command'' \<mapsto> PyStr (command_text pf (command a))]"
      by (auto split: option.splits sum.splits)
    from hello(1) [OF r] show ?thesis
      by (simp add: i)
  qed
  have b: "\<exists>info. result (cmd pf tm w1 w2 a) = Some (Inr info)"
    if "(tee_backend a = ''select'' \<and> POSIX pf)
           \<or> ((tee_backend a = ''auto'' \<or> tee_backend a = ''thread'')
               \<and> polls_out tm + 2 \<le> length (filter fst (arrivals tm))
               \<and> polls_err tm + 1 \<le> length (filter snd (arrivals tm)))"
  proof -
    from hello(2) [OF that] obtain p' lo le where "?r = Some (Inr (p', lo, le))"
      by blast
    with res show ?thesis by simp
  qed
  from a b True show ?thesis by blast
qed

theorem cmd_hello_witness:
  "\<exists>info. result (cmd sample_platform sample_timing empty_sink empty_sink sample_call)
            = Some (Inr info)
         \<and> info ''out'' = Some (PyStr ''hello\<newline>'')
         \<and> info ''err'' = Some (PyStr [])
         \<and> info ''ret'' = Some (PyInt 0)"
proof -
  have k: "resolve_kwargs sample_call = Inr (None, False)"
    by (simp add: resolve_kwargs_def sample_call_def pop_def)
  have p: "popen_args sample_platform (shell sample_call) (command sample_call)
             = Inr (Tup [''echo'', ''hello world''])"
    by (simp add: popen_args_def command_tup_def sample_call_def sample_platform_def)
  have l: "Popen sample_platform (Tup [''echo'', ''hello world'']) (shell sample_call)
             (cwd sample_call) (env sample_call) = Inr hello_proc"
    by (simp add: sample_platform_def)
  have fair: "\<not> (case None of None \<Rightarrow> verbose sample_call > 0 | Some b \<Rightarrow> b)
           \<or> (tee_backend sample_call = ''select'' \<and> POSIX sample_platform)
           \<or> ((tee_backend sample_call = ''auto'' \<or> tee_backend sample_call = ''thread'')
               \<and> polls_out sample_timing + 2 \<le> length (filter fst (arrivals sample_timing))
               \<and> polls_err sample_timing + 1 \<le> length (filter snd (arrivals sample_timing)))"
    by (simp add: sample_call_def sample_timing_def)
  from cmd_hello [OF k p l, of sample_timing empty_sink empty_sink] fair
  show ?thesis
    by (auto simp: hello_proc_def)
qed

end
